theory Spec2Isabelle
  imports Complex_Main "HOL-Library.AList"
begin

section \<open>Exceptions\<close>

text \<open>
  Every exception a line of \<^verbatim>\<open>wtd_shares/utils.py\<close> can raise is a value of \<open>error\<close>;
  a function that can raise returns \<open>error + 'a\<close> with \<open>Inl\<close> for the exception.
  \<open>KeyError\<close> carries the missing key. \<open>RequestException\<close> is what the HTTP library
  raises, \<open>JSONDecodeError\<close> what the JSON parser raises. \<open>MalformedResponseError\<close> is
  the error kind the specification names: no line of the source defines or raises it,
  and the constructor exists so that statements can speak about it.
\<close>

datatype error =
    KeyError string
  | TypeError
  | ValueError
  | OverflowError
  | RequestException
  | JSONDecodeError
  | MalformedResponseError

section \<open>The standard library's datetime\<close>

text \<open>
  A \<^verbatim>\<open>datetime.datetime\<close>: the calendar date and the time of day. The arithmetic is
  the library's proleptic Gregorian calendar: a date's ordinal is its day number, with
  0001-01-01 as day 1 and 9999-12-31 as day \<open>MAXORDINAL\<close>; the functions below follow
  the library's \<^verbatim>\<open>_is_leap\<close>, \<^verbatim>\<open>_days_before_year\<close>, \<^verbatim>\<open>_days_in_month\<close>,
  \<^verbatim>\<open>_days_before_month\<close>, \<^verbatim>\<open>_ymd2ord\<close> and \<^verbatim>\<open>_ord2ymd\<close>.
\<close>

record datetime =
  year :: int
  month :: int
  day :: int
  hour :: int
  minute :: int
  second :: int
  microsecond :: int

definition is_leap :: "int \<Rightarrow> bool" where
  "is_leap y = (y mod 4 = 0 \<and> (y mod 100 \<noteq> 0 \<or> y mod 400 = 0))"

definition days_before_year :: "int \<Rightarrow> int" where
  "days_before_year y = (y - 1) * 365 + (y - 1) div 4 - (y - 1) div 100 + (y - 1) div 400"

definition DAYS_IN_MONTH :: "int list" where
  "DAYS_IN_MONTH = [-1, 31, 28, 31, 30, 31, 30, 31, 31, 30, 31, 30, 31]"

definition DAYS_BEFORE_MONTH :: "int list" where
  "DAYS_BEFORE_MONTH = [-1, 0, 31, 59, 90, 120, 151, 181, 212, 243, 273, 304, 334]"

definition days_in_month :: "int \<Rightarrow> int \<Rightarrow> int" where
  "days_in_month y m = (if m = 2 \<and> is_leap y then 29 else DAYS_IN_MONTH ! nat m)"

definition days_before_month :: "int \<Rightarrow> int \<Rightarrow> int" where
  "days_before_month y m = DAYS_BEFORE_MONTH ! nat m + (if 2 < m \<and> is_leap y then 1 else 0)"

definition ymd2ord :: "int \<Rightarrow> int \<Rightarrow> int \<Rightarrow> int" where
  "ymd2ord y m d = days_before_year y + days_before_month y m + d"

definition MAXORDINAL :: int where
  "MAXORDINAL = 3652059"

text \<open>
  The month and the day of the \<open>n\<close>-th day of a year, counted from 0 (the last lines of
  \<^verbatim>\<open>_ord2ymd\<close>): an estimate of the month that is right or one too large, corrected
  with the table.
\<close>

definition month_day :: "bool \<Rightarrow> int \<Rightarrow> int \<times> int" where
  "month_day leapyear n =
     (let m = (n + 50) div 32;
          preceding = DAYS_BEFORE_MONTH ! nat m + (if 2 < m \<and> leapyear then 1 else 0)
      in if n < preceding
         then (m - 1,
               n - (preceding - (DAYS_IN_MONTH ! nat (m - 1)
                                  + (if m - 1 = 2 \<and> leapyear then 1 else 0))) + 1)
         else (m, n - preceding + 1))"

definition ord2ymd :: "int \<Rightarrow> int \<times> int \<times> int" where
  "ord2ymd n0 =
     (let n = n0 - 1;
          n400 = n div 146097; n = n mod 146097;
          n100 = n div 36524; n = n mod 36524;
          n4 = n div 1461; n = n mod 1461;
          n1 = n div 365; n = n mod 365;
          y = n400 * 400 + 1 + n100 * 100 + n4 * 4 + n1
      in if n1 = 4 \<or> n100 = 4 then (y - 1, 12, 31)
         else case month_day (n1 = 3 \<and> (n4 \<noteq> 24 \<or> n100 = 3)) n of
                (m, d) \<Rightarrow> (y, m, d))"

text \<open>
  The objects a caller can hold: the constructor of \<^verbatim>\<open>datetime\<close> refuses every other
  combination of fields.
\<close>

definition valid_datetime :: "datetime \<Rightarrow> bool" where
  "valid_datetime d =
     (1 \<le> year d \<and> year d \<le> 9999 \<and> 1 \<le> month d \<and> month d \<le> 12
      \<and> 1 \<le> day d \<and> day d \<le> days_in_month (year d) (month d)
      \<and> 0 \<le> hour d \<and> hour d < 24 \<and> 0 \<le> minute d \<and> minute d < 60
      \<and> 0 \<le> second d \<and> second d < 60 \<and> 0 \<le> microsecond d \<and> microsecond d < 1000000)"

definition toordinal :: "datetime \<Rightarrow> int" where
  "toordinal d = ymd2ord (year d) (month d) (day d)"

text \<open>
  \<^verbatim>\<open>d - timedelta(days=n)\<close>. \<^verbatim>\<open>timedelta\<close> refuses more than 999999999 days either way;
  the difference moves the date by \<open>n\<close> days, keeps the time of day, and raises
  OverflowError when the day leaves the calendar.
\<close>

definition sub_days :: "datetime \<Rightarrow> int \<Rightarrow> error + datetime" where
  "sub_days d n =
     (if \<bar>n\<bar> > 999999999 then Inl OverflowError
      else
        let k = toordinal d - n
        in if 0 < k \<and> k \<le> MAXORDINAL
           then (case ord2ymd k of (y, m, dd) \<Rightarrow> Inr (d\<lparr>year := y, month := m, day := dd\<rparr>))
           else Inl OverflowError)"

text \<open>
  \<^verbatim>\<open>date.strftime(fmt)\<close> for the directives the source's format uses, as CPython
  returns it on Linux, where the C library formats the fields: \<^verbatim>\<open>%Y\<close> is the year in
  decimal with no leading zeros (\<^verbatim>\<open>999\<close> for the year 999, \<^verbatim>\<open>1\<close> for the year 1),
  \<^verbatim>\<open>%m\<close> and \<^verbatim>\<open>%d\<close> are the month and the day in two digits; every other character
  is copied.
\<close>

fun digits :: "nat \<Rightarrow> string" where
  "digits n = (if n < 10 then [''0123456789'' ! n]
               else digits (n div 10) @ [''0123456789'' ! (n mod 10)])"

declare digits.simps [simp del]

definition zfill :: "nat \<Rightarrow> string \<Rightarrow> string" where
  "zfill w s = replicate (w - length s) (CHR ''0'') @ s"

fun strftime :: "datetime \<Rightarrow> string \<Rightarrow> string" where
  "strftime d [] = []"
| "strftime d [c] = [c]"
| "strftime d (c # f # cs) =
     (if c = CHR ''%'' then
        (if f = CHR ''Y'' then digits (nat (year d))
         else if f = CHR ''m'' then zfill 2 (digits (nat (month d)))
         else if f = CHR ''d'' then zfill 2 (digits (nat (day d)))
         else [c, f]) @ strftime d cs
      else c # strftime d (f # cs))"

section \<open>settings.py\<close>

definition DATE_FORMAT :: string where
  "DATE_FORMAT = ''%Y-%m-%d''"

definition WTD_BASE_URL :: string where
  "WTD_BASE_URL = ''https://www.worldtradingdata.com/''"

definition WTD_API_URL :: string where
  "WTD_API_URL = WTD_BASE_URL @ ''api/v1/''"

definition WTD_HISTORY_URL :: string where
  "WTD_HISTORY_URL = WTD_API_URL @ ''history/''"

text \<open>
  \<^verbatim>\<open>WTD_API_TOKEN = os.getenv('WTD_API_TOKEN')\<close>: the value of the variable in the
  process environment, \<open>None\<close> when it is not set.
\<close>

definition WTD_API_TOKEN :: "(string \<rightharpoonup> string) \<Rightarrow> string option" where
  "WTD_API_TOKEN environ = environ ''WTD_API_TOKEN''"

section \<open>utils.py: the query parameters\<close>

definition date_format :: "datetime \<Rightarrow> string" where
  "date_format date = strftime date DATE_FORMAT"

text \<open>A value of the parameter dict: a str, or None.\<close>

datatype pyval = Str string | NoneVal

type_synonym params = "(string \<times> pyval) list"

text \<open>
  \<^verbatim>\<open>get_wtd_query_params\<close>. The process environment and the reading of the clock
  (\<^verbatim>\<open>datetime.today()\<close>) are arguments. An absent date is \<open>None\<close>; a datetime object is
  never falsy, so \<^verbatim>\<open>not end_date\<close> holds exactly for \<open>None\<close>. The dict keeps its keys
  in the order they were written.
\<close>

definition get_wtd_query_params ::
  "(string \<rightharpoonup> string) \<Rightarrow> datetime \<Rightarrow> string \<Rightarrow> datetime option \<Rightarrow> datetime option
     \<Rightarrow> int \<Rightarrow> string \<Rightarrow> error + params" where
  "get_wtd_query_params environ today symbol start_date end_date previous_days sort' =
     (let end_date = (case end_date of None \<Rightarrow> today | Some e \<Rightarrow> e)
      in case (case start_date of
                 None \<Rightarrow> sub_days end_date previous_days
               | Some s \<Rightarrow> Inr s) of
           Inl e \<Rightarrow> Inl e
         | Inr start_date \<Rightarrow>
             Inr [(''symbol'', Str symbol),
                  (''sort'', Str sort'),
                  (''date_from'', Str (date_format start_date)),
                  (''date_to'', Str (date_format end_date)),
                  (''api_token'', (case WTD_API_TOKEN environ of
                                     None \<Rightarrow> NoneVal | Some t \<Rightarrow> Str t))])"

text \<open>
  \<^verbatim>\<open>datetime(y, m, d)\<close> for a date of the calendar: midnight of that day.
\<close>

definition datetime_ymd :: "int \<Rightarrow> int \<Rightarrow> int \<Rightarrow> datetime" where
  "datetime_ymd y m d =
     \<lparr>year = y, month = m, day = d, hour = 0, minute = 0, second = 0, microsecond = 0\<rparr>"

definition valid_opt :: "datetime option \<Rightarrow> bool" where
  "valid_opt d = (case d of None \<Rightarrow> True | Some x \<Rightarrow> valid_datetime x)"

text \<open>The value the dict holds under \<^verbatim>\<open>api_token\<close>.\<close>

definition token_value :: "(string \<rightharpoonup> string) \<Rightarrow> pyval" where
  "token_value environ = (case environ ''WTD_API_TOKEN'' of None \<Rightarrow> NoneVal | Some t \<Rightarrow> Str t)"

text \<open>The shape \<^verbatim>\<open>YYYY-MM-DD\<close>: four digits, a dash, two digits, a dash, two digits.\<close>

definition is_digit :: "char \<Rightarrow> bool" where
  "is_digit c = (c \<in> set ''0123456789'')"

definition is_YYYY_MM_DD :: "string \<Rightarrow> bool" where
  "is_YYYY_MM_DD s =
     (length s = 10 \<and> list_all is_digit (take 4 s) \<and> s ! 4 = CHR ''-''
      \<and> list_all is_digit (take 2 (drop 5 s)) \<and> s ! 7 = CHR ''-''
      \<and> list_all is_digit (drop 8 s))"

section \<open>pandas: the operations the source applies to a frame\<close>

text \<open>
  A column of the frame is a float64 series: a cell is a number or NaN, the missing
  marker (\<open>None\<close>). The numbers are modelled as reals: rounding and the infinities of
  float64 are not. A frame is its index (the row labels) and its columns in order,
  each with one cell per row.
\<close>

type_synonym cell = "real option"

type_synonym series = "cell list"

record frame =
  index :: "string list"
  columns :: "(string \<times> series) list"

definition wf_frame :: "frame \<Rightarrow> bool" where
  "wf_frame df = (distinct (map fst (columns df))
                  \<and> list_all (\<lambda>c. length (snd c) = length (index df)) (columns df))"

text \<open>\<^verbatim>\<open>df[k]\<close> raises KeyError for a column the frame does not have.\<close>

definition getitem :: "frame \<Rightarrow> string \<Rightarrow> error + series" where
  "getitem df k = (case map_of (columns df) k of None \<Rightarrow> Inl (KeyError k) | Some s \<Rightarrow> Inr s)"

text \<open>\<^verbatim>\<open>df[k] = s\<close> replaces the column in place, or appends it as the last column.\<close>

definition setitem :: "frame \<Rightarrow> string \<Rightarrow> series \<Rightarrow> frame" where
  "setitem df k s = df\<lparr>columns := AList.update k s (columns df)\<rparr>"

text \<open>
  \<^verbatim>\<open>df[[k1, k2, ...]]\<close>: the columns named, in that order; KeyError when one is
  missing.
\<close>

fun getitems :: "frame \<Rightarrow> string list \<Rightarrow> error + series list" where
  "getitems df [] = Inr []"
| "getitems df (k # ks) =
     (case getitem df k of
        Inl e \<Rightarrow> Inl e
      | Inr s \<Rightarrow> (case getitems df ks of Inl e \<Rightarrow> Inl e | Inr ss \<Rightarrow> Inr (s # ss)))"

text \<open>
  The difference of two series of one frame, row by row; a missing operand gives a
  missing result.
\<close>

definition series_sub :: "series \<Rightarrow> series \<Rightarrow> series" where
  "series_sub a b =
     map2 (\<lambda>x y. case x of None \<Rightarrow> None
                 | Some u \<Rightarrow> (case y of None \<Rightarrow> None | Some v \<Rightarrow> Some (u - v))) a b"

text \<open>\<^verbatim>\<open>s.shift(1)\<close>: every value moves one row down; the first row is missing.\<close>

definition shift :: "series \<Rightarrow> series" where
  "shift s = take (length s) (None # s)"

text \<open>\<^verbatim>\<open>abs(s)\<close>, row by row.\<close>

definition series_abs :: "series \<Rightarrow> series" where
  "series_abs s = map (map_option abs) s"

text \<open>
  \<^verbatim>\<open>.max(axis=1)\<close> over the selected columns, for a frame of \<open>n\<close> rows. pandas skips
  missing values by default (\<^verbatim>\<open>skipna=True\<close>): the maximum of a row is the largest of
  its values that are present, and is missing only when all of them are.
\<close>

definition nanmax :: "cell list \<Rightarrow> cell" where
  "nanmax cs = (case map the (filter (\<lambda>c. c \<noteq> None) cs) of
                  [] \<Rightarrow> None
                | x # xs \<Rightarrow> Some (fold max xs x))"

definition max_axis1 :: "nat \<Rightarrow> series list \<Rightarrow> series" where
  "max_axis1 n cols = map (\<lambda>i. nanmax (map (\<lambda>c. c ! i) cols)) [0..<n]"

text \<open>
  \<^verbatim>\<open>s.rolling(w).apply(f)\<close>. The window of row \<open>i\<close> is the rows \<open>i - w + 1\<close> to \<open>i\<close>
  that exist. \<^verbatim>\<open>min_periods\<close> defaults to the window size: the function is applied
  when the window holds at least \<open>w\<close> values that are present, and the result is
  missing otherwise.
\<close>

definition rolling_apply :: "nat \<Rightarrow> (real list \<Rightarrow> real) \<Rightarrow> series \<Rightarrow> series" where
  "rolling_apply w f s =
     map (\<lambda>i. let window = drop (i + 1 - w) (take (i + 1) s)
              in if w \<le> length (filter (\<lambda>c. c \<noteq> None) window)
                 then Some (f (map the window)) else None)
         [0..<length s]"

text \<open>\<^verbatim>\<open>df.transpose()\<close>: the column labels become the index, the rows become columns.\<close>

definition transpose_frame :: "frame \<Rightarrow> frame" where
  "transpose_frame df =
     \<lparr>index = map fst (columns df),
      columns = map (\<lambda>i. (index df ! i, map (\<lambda>c. snd c ! i) (columns df)))
                    [0..<length (index df)]\<rparr>"

text \<open>
  \<^verbatim>\<open>DataFrame(data)\<close> for \<open>data\<close> a str. The constructor builds a frame from a dict, an
  array, a list or another iterable of rows, or a frame. A str is none of these (the
  constructor does not take a str as an iterable of rows): it is turned into an array
  of dimension 0 and, no index and columns being given, the constructor raises
  \<^verbatim>\<open>ValueError('DataFrame constructor not properly called!')\<close>, whatever the str holds.
\<close>

definition DataFrame_of_str :: "string \<Rightarrow> error + frame" where
  "DataFrame_of_str data = Inl ValueError"

section \<open>utils.py: the derived columns\<close>

text \<open>
  Lines 100 to 114 of \<^verbatim>\<open>get_atr_dataframe\<close>, as a function of the frame \<open>df\<close> of
  line 96. Each assignment reads its columns from the frame as it is then.
\<close>

definition add_atr_columns :: "frame \<Rightarrow> error + frame" where
  "add_atr_columns df0 =
     (case getitem df0 ''high'' of Inl e \<Rightarrow> Inl e | Inr high \<Rightarrow>
      case getitem df0 ''low'' of Inl e \<Rightarrow> Inl e | Inr low \<Rightarrow>
      let df1 = setitem df0 ''TH-TL'' (series_sub high low) in
      case getitem df1 ''high'' of Inl e \<Rightarrow> Inl e | Inr high \<Rightarrow>
      case getitem df1 ''low'' of Inl e \<Rightarrow> Inl e | Inr low \<Rightarrow>
      let df2 = setitem df1 ''TH-YC'' (series_abs (series_sub high (shift low))) in
      case getitem df2 ''low'' of Inl e \<Rightarrow> Inl e | Inr low \<Rightarrow>
      case getitem df2 ''close'' of Inl e \<Rightarrow> Inl e | Inr close \<Rightarrow>
      let df3 = setitem df2 ''TL-YC'' (series_abs (series_sub low (shift close))) in
      case getitems df3 [''TH-TL'', ''TL-YC''] of Inl e \<Rightarrow> Inl e | Inr cols \<Rightarrow>
      let df4 = setitem df3 ''True Range'' (max_axis1 (length (index df3)) cols) in
      case getitem df4 ''True Range'' of Inl e \<Rightarrow> Inl e | Inr true_range \<Rightarrow>
      Inr (setitem df4 ''ATR (sma)''
             (rolling_apply 14 (\<lambda>x. sum_list x / 14) true_range)))"

section \<open>utils.py: fetching and loading\<close>

text \<open>
  A value \<^verbatim>\<open>json.loads\<close> returns. An object is a dict: its keys in the order of the
  text, each key once.
\<close>

datatype json =
    JNull
  | JBool bool
  | JInt int
  | JFloat real
  | JStr string
  | JList "json list"
  | JDict "(string \<times> json) list"

text \<open>
  \<^verbatim>\<open>data[k]\<close> for a str \<open>k\<close>: KeyError when a dict has no such key, TypeError when
  \<open>data\<close> is a list, a str, a number, a bool or None.
\<close>

definition json_getitem :: "json \<Rightarrow> string \<Rightarrow> error + json" where
  "json_getitem data k =
     (case data of
        JDict kvs \<Rightarrow> (case map_of kvs k of None \<Rightarrow> Inl (KeyError k) | Some v \<Rightarrow> Inr v)
      | _ \<Rightarrow> Inl TypeError)"

text \<open>
  What the function takes from outside: the process environment, the clock, the HTTP
  request (the response's text, or \<open>None\<close> when \<^verbatim>\<open>requests.get\<close> raises), and the json
  module (\<^verbatim>\<open>loads\<close> gives \<open>None\<close> when the text is not JSON; \<^verbatim>\<open>dumps\<close> gives a str).
\<close>

record world =
  os_environ :: "string \<rightharpoonup> string"
  clock :: datetime
  requests_get :: "string \<Rightarrow> params \<Rightarrow> string option"
  json_loads :: "string \<Rightarrow> json option"
  json_dumps :: "json \<Rightarrow> string"

text \<open>
  \<^verbatim>\<open>get_atr_dataframe\<close>, lines 69 to 116: the query, the request, the parse of the
  response's text, \<^verbatim>\<open>data['history']\<close>, then \<^verbatim>\<open>json.dumps\<close> of that value (line 93),
  whose result, a str, is what line 96 passes to \<^verbatim>\<open>DataFrame\<close>; the transposition
  and the derived columns follow.
\<close>

definition get_atr_dataframe ::
  "world \<Rightarrow> string \<Rightarrow> datetime option \<Rightarrow> datetime option \<Rightarrow> int \<Rightarrow> string
     \<Rightarrow> error + frame" where
  "get_atr_dataframe w symbol start_date end_date previous_days sort' =
     (case get_wtd_query_params (os_environ w) (clock w) symbol start_date end_date
             previous_days sort' of
        Inl e \<Rightarrow> Inl e
      | Inr query_params \<Rightarrow>
     (case requests_get w WTD_HISTORY_URL query_params of
        None \<Rightarrow> Inl RequestException
      | Some text \<Rightarrow>
     (case json_loads w text of
        None \<Rightarrow> Inl JSONDecodeError
      | Some data \<Rightarrow>
     (case json_getitem data ''history'' of
        Inl e \<Rightarrow> Inl e
      | Inr h \<Rightarrow>
          let history = json_dumps w h
          in (case DataFrame_of_str history of
                Inl e \<Rightarrow> Inl e
              | Inr df \<Rightarrow> add_atr_columns (transpose_frame df))))))"

section \<open>Example frames\<close>

text \<open>
  Two rows, 2018-10-15 and 2018-10-16, with the prices of the specification's example.
\<close>

definition frame_two_days :: frame where
  "frame_two_days =
     \<lparr>index = [''2018-10-15'', ''2018-10-16''],
      columns = [(''open'', [Some 7020, Some 7029.22]),
                 (''close'', [Some 7010, Some 7059.40]),
                 (''high'', [Some 7050, Some 7062.08]),
                 (''low'', [Some 7000, Some 6998.93]),
                 (''volume'', [Some 0, Some 0])]\<rparr>"

text \<open>Fifteen rows: the high rises by one a day from 101, low and close stay at 100.\<close>

definition frame_fifteen_days :: frame where
  "frame_fifteen_days =
     \<lparr>index = [''2018-10-01'', ''2018-10-02'', ''2018-10-03'', ''2018-10-04'', ''2018-10-05'',
               ''2018-10-08'', ''2018-10-09'', ''2018-10-10'', ''2018-10-11'', ''2018-10-12'',
               ''2018-10-15'', ''2018-10-16'', ''2018-10-17'', ''2018-10-18'', ''2018-10-19''],
      columns = [(''high'', [Some 101, Some 102, Some 103, Some 104, Some 105, Some 106,
                            Some 107, Some 108, Some 109, Some 110, Some 111, Some 112,
                            Some 113, Some 114, Some 115]),
                 (''low'', replicate 15 (Some 100)),
                 (''close'', replicate 15 (Some 100))]\<rparr>"

section \<open>Example responses\<close>

text \<open>
  The world in which the server answers \<open>text\<close> and \<^verbatim>\<open>json.loads\<close> parses that text to
  \<open>data\<close>: no token is set and the clock reads 2018-10-20. What \<^verbatim>\<open>json.dumps\<close> returns
  is a str; which one does not matter to \<^verbatim>\<open>DataFrame\<close>.
\<close>

definition world_of :: "string \<Rightarrow> json \<Rightarrow> world" where
  "world_of text data =
     \<lparr>os_environ = Map.empty,
      clock = datetime_ymd 2018 10 20,
      requests_get = (\<lambda>url query_params. Some text),
      json_loads = (\<lambda>t. if t = text then Some data else None),
      json_dumps = (\<lambda>j. ''{...}'')\<rparr>"

text \<open>A response with no history: \<^verbatim>\<open>{"name": "UKX"}\<close>.\<close>

definition text_no_history :: string where
  "text_no_history = ''{\"name\": \"UKX\"}''"

definition response_no_history :: json where
  "response_no_history = JDict [(''name'', JStr ''UKX'')]"

text \<open>A response with an empty history: \<^verbatim>\<open>{"name": "UKX", "history": {}}\<close>.\<close>

definition text_empty_history :: string where
  "text_empty_history = ''{\"name\": \"UKX\", \"history\": {}}''"

definition response_empty_history :: json where
  "response_empty_history = JDict [(''name'', JStr ''UKX''), (''history'', JDict [])]"

text \<open>The example response of the source's comment: one day, every field a str.\<close>

definition text_one_day :: string where
  "text_one_day =
     ''{\"name\": \"UKX\", \"history\": {\"2018-10-16\": {\"open\": \"7029.22\", ''
     @ ''\"close\": \"7059.40\", \"high\": \"7062.08\", \"low\": \"6998.93\", ''
     @ ''\"volume\": \"0\"}}}''"

definition response_one_day :: json where
  "response_one_day =
     JDict [(''name'', JStr ''UKX''),
            (''history'',
             JDict [(''2018-10-16'',
                     JDict [(''open'', JStr ''7029.22''), (''close'', JStr ''7059.40''),
                            (''high'', JStr ''7062.08''), (''low'', JStr ''6998.93''),
                            (''volume'', JStr ''0'')])])]"

section \<open>Calendar arithmetic\<close>

lemma month_day_ok:
  assumes "0 \<le> r" "r \<le> 364" "month_day L r = (m, d)"
  shows "1 \<le> m \<and> m \<le> 12 \<and> 1 \<le> d
         \<and> d \<le> (if m = 2 \<and> L then 29 else DAYS_IN_MONTH ! nat m)
         \<and> DAYS_BEFORE_MONTH ! nat m + (if 2 < m \<and> L then 1 else 0) + d = r + 1"
proof -
  define k where "k = (r + 50) div 32"
  have k: "32 * k \<le> r + 50" "r + 50 < 32 * k + 32"
    unfolding k_def by linarith+
  with assms(1,2) have "1 \<le> k" "k \<le> 12" by linarith+
  then have "k = 1 \<or> k = 2 \<or> k = 3 \<or> k = 4 \<or> k = 5 \<or> k = 6 \<or> k = 7 \<or> k = 8 \<or> k = 9
             \<or> k = 10 \<or> k = 11 \<or> k = 12"
    by presburger
  moreover have md: "month_day L r =
     (let preceding = DAYS_BEFORE_MONTH ! nat k + (if 2 < k \<and> L then 1 else 0)
      in if r < preceding
         then (k - 1,
               r - (preceding - (DAYS_IN_MONTH ! nat (k - 1)
                                  + (if k - 1 = 2 \<and> L then 1 else 0))) + 1)
         else (k, r - preceding + 1))"
    unfolding month_day_def k_def Let_def by simp
  ultimately show ?thesis
    using k assms(1,2,3)
    by (elim disjE; cases L;
        simp add: Let_def DAYS_BEFORE_MONTH_def DAYS_IN_MONTH_def split: if_splits;
        (auto simp: DAYS_BEFORE_MONTH_def DAYS_IN_MONTH_def)?)
qed

lemma dby_decomp:
  assumes "0 \<le> b" "b \<le> 3" "0 \<le> c" "c \<le> 24" "0 \<le> e" "e \<le> 3"
  shows "days_before_year (a * 400 + b * 100 + c * 4 + e + 1)
         = 146097 * a + 36524 * b + 1461 * c + 365 * e"
proof -
  let ?x = "a * 400 + b * 100 + c * 4 + e"
  have d4: "?x div 4 = 100 * a + 25 * b + c"
    by (rule int_div_pos_eq [where r = e]) (use assms in auto)
  have d100: "?x div 100 = 4 * a + b"
    by (rule int_div_pos_eq [where r = "4 * c + e"]) (use assms in auto)
  have d400: "?x div 400 = a"
    by (rule int_div_pos_eq [where r = "100 * b + 4 * c + e"]) (use assms in auto)
  show ?thesis
    unfolding days_before_year_def using d4 d100 d400 by simp
qed

lemma leap_decomp:
  assumes "0 \<le> b" "b \<le> 3" "0 \<le> c" "c \<le> 24" "0 \<le> e" "e \<le> 3"
  shows "is_leap (a * 400 + b * 100 + c * 4 + e + 1) = (e = 3 \<and> (c \<noteq> 24 \<or> b = 3))"
proof (cases "e = 3")
  case False
  have "(a * 400 + b * 100 + c * 4 + e + 1) mod 4 = e + 1"
    by (rule int_mod_pos_eq [where q = "100 * a + 25 * b + c"]) (use assms False in auto)
  with assms False show ?thesis by (simp add: is_leap_def)
next
  case e3: True
  have y4: "a * 400 + b * 100 + c * 4 + e + 1 = 4 * (100 * a + 25 * b + c + 1)"
    using e3 by simp
  have m4: "(a * 400 + b * 100 + c * 4 + e + 1) mod 4 = 0"
    unfolding y4 by simp
  show ?thesis
  proof (cases "c = 24")
    case False
    have "(a * 400 + b * 100 + c * 4 + e + 1) mod 100 = 4 * c + 4"
      by (rule int_mod_pos_eq [where q = "4 * a + b"]) (use assms False e3 in auto)
    with assms False e3 m4 show ?thesis by (simp add: is_leap_def)
  next
    case c24: True
    have y100: "a * 400 + b * 100 + c * 4 + e + 1 = 100 * (4 * a + b + 1)"
      using e3 c24 by simp
    have m100: "(a * 400 + b * 100 + c * 4 + e + 1) mod 100 = 0"
      unfolding y100 by simp
    show ?thesis
    proof (cases "b = 3")
      case True
      have y400: "a * 400 + b * 100 + c * 4 + e + 1 = 400 * (a + 1)"
        using e3 c24 True by simp
      have "(a * 400 + b * 100 + c * 4 + e + 1) mod 400 = 0"
        unfolding y400 by simp
      with m4 show ?thesis using True e3 by (simp add: is_leap_def)
    next
      case False
      have "(a * 400 + b * 100 + c * 4 + e + 1) mod 400 = 100 * b + 100"
        by (rule int_mod_pos_eq [where q = a]) (use assms False e3 c24 in auto)
      with assms m100 e3 c24 False show ?thesis by (simp add: is_leap_def)
    qed
  qed
qed

lemma year_decomp:
  fixes z :: int
  assumes "0 \<le> z"
  obtains a b c e where "z = a * 400 + b * 100 + c * 4 + e"
    "0 \<le> a" "0 \<le> b" "b \<le> 3" "0 \<le> c" "c \<le> 24" "0 \<le> e" "e \<le> 3"
proof -
  define a where "a = z div 400"
  define t where "t = z mod 400"
  define b where "b = t div 100"
  define u where "u = t mod 100"
  define c where "c = u div 4"
  define e where "e = u mod 4"
  have z: "z = a * 400 + t" and t: "0 \<le> t" "t < 400"
    unfolding a_def t_def by simp_all
  have tt: "t = b * 100 + u" and u: "0 \<le> u" "u < 100"
    unfolding b_def u_def by simp_all
  have uu: "u = c * 4 + e" and e: "0 \<le> e" "e < 4"
    unfolding c_def e_def by simp_all
  have "0 \<le> a" unfolding a_def using assms by simp
  moreover have "0 \<le> b" "b \<le> 3" using t tt u by linarith+
  moreover have "0 \<le> c" "c \<le> 24" using u uu e by linarith+
  moreover have "z = a * 400 + b * 100 + c * 4 + e" using z tt uu by simp
  ultimately show thesis using e that by simp
qed

lemma dby_big:
  assumes "10000 \<le> y"
  shows "3652059 \<le> days_before_year y"
proof -
  from assms have "0 \<le> y - 1" by simp
  then obtain a b c e where z: "y - 1 = a * 400 + b * 100 + c * 4 + e"
    and bnd: "0 \<le> a" "0 \<le> b" "b \<le> 3" "0 \<le> c" "c \<le> 24" "0 \<le> e" "e \<le> 3"
    by (rule year_decomp)
  have y: "y = a * 400 + b * 100 + c * 4 + e + 1" using z by simp
  have dby: "days_before_year y = 146097 * a + 36524 * b + 1461 * c + 365 * e"
    unfolding y using bnd(2-) by (rule dby_decomp)
  have a24: "24 \<le> a" using assms y bnd by linarith
  show ?thesis
  proof (cases "25 \<le> a")
    case True
    with dby bnd show ?thesis by linarith
  next
    case False
    with a24 have a: "a = 24" by simp
    have b: "b = 3" using assms y a bnd by linarith
    have c: "c = 24" using assms y a b bnd by linarith
    have e: "e = 3" using assms y a b c bnd by linarith
    show ?thesis using dby a b c e by simp
  qed
qed

lemma ord2ymd_ok:
  assumes n: "0 < n" and res: "ord2ymd n = (y, m, d)"
  shows "ymd2ord y m d = n \<and> 1 \<le> y \<and> 1 \<le> m \<and> m \<le> 12 \<and> 1 \<le> d \<and> d \<le> days_in_month y m"
proof -
  define N where "N = n - 1"
  define a where "a = N div 146097"
  define r1 where "r1 = N mod 146097"
  define b where "b = r1 div 36524"
  define r2 where "r2 = r1 mod 36524"
  define c where "c = r2 div 1461"
  define r3 where "r3 = r2 mod 1461"
  define e where "e = r3 div 365"
  define r where "r = r3 mod 365"
  have N: "N = a * 146097 + r1" "0 \<le> r1" "r1 < 146097"
    unfolding a_def r1_def by simp_all
  have R1: "r1 = b * 36524 + r2" "0 \<le> r2" "r2 < 36524"
    unfolding b_def r2_def by simp_all
  have R2: "r2 = c * 1461 + r3" "0 \<le> r3" "r3 < 1461"
    unfolding c_def r3_def by simp_all
  have R3: "r3 = e * 365 + r" "0 \<le> r" "r < 365"
    unfolding e_def r_def by simp_all
  have a0: "0 \<le> a" unfolding a_def N_def using n by simp
  have b0: "0 \<le> b" "b \<le> 4" using N R1 by linarith+
  have c0: "0 \<le> c" "c \<le> 24" using R1 R2 by linarith+
  have e0: "0 \<le> e" "e \<le> 4" using R2 R3 by linarith+
  have nN: "n = a * 146097 + b * 36524 + c * 1461 + e * 365 + r + 1"
    using N R1 R2 R3 N_def by simp
  have unf: "ord2ymd n =
     (if e = 4 \<or> b = 4 then (a * 400 + 1 + b * 100 + c * 4 + e - 1, 12, 31)
      else case month_day (e = 3 \<and> (c \<noteq> 24 \<or> b = 3)) r of
             (m, d) \<Rightarrow> (a * 400 + 1 + b * 100 + c * 4 + e, m, d))"
    unfolding ord2ymd_def Let_def r_def e_def r3_def c_def r2_def b_def r1_def a_def N_def
    by (rule refl)
  have dec31: "ymd2ord (a' * 400 + b' * 100 + c' * 4 + 3 + 1) 12 31
                 = 146097 * a' + 36524 * b' + 1461 * c' + 1461
               \<and> 31 \<le> days_in_month (a' * 400 + b' * 100 + c' * 4 + 3 + 1) 12"
    if "0 \<le> b'" "b' \<le> 3" "0 \<le> c'" "c' \<le> 24" "c' \<noteq> 24 \<or> b' = 3" for a' b' c' :: int
  proof -
    have "is_leap (a' * 400 + b' * 100 + c' * 4 + 3 + 1)"
      using leap_decomp [of b' c' 3 a'] that by simp
    moreover have "days_before_year (a' * 400 + b' * 100 + c' * 4 + 3 + 1)
        = 146097 * a' + 36524 * b' + 1461 * c' + 365 * 3"
      using that by (intro dby_decomp) simp_all
    ultimately show ?thesis
      by (simp add: ymd2ord_def days_before_month_def days_in_month_def
          DAYS_BEFORE_MONTH_def DAYS_IN_MONTH_def)
  qed
  show ?thesis
  proof (cases "b = 4")
    case b4: True
    then have "r2 = 0" using N R1 by linarith
    then have z: "c = 0" "e = 0" "r = 0" using R2 R3 c0 e0 by linarith+
    have ymd: "y = a * 400 + 3 * 100 + 24 * 4 + 3 + 1" "m = 12" "d = 31"
      using res unf b4 z by simp_all
    show ?thesis
      unfolding ymd using dec31 [of 3 24 a] nN b4 z a0 by simp
  next
    case bn4: False
    then have b3: "b \<le> 3" using b0 by simp
    show ?thesis
    proof (cases "e = 4")
      case e4: True
      then have r0: "r = 0" using R2 R3 by linarith
      have c23: "c \<le> 23" using R1 R2 R3 e4 by linarith
      have ymd: "y = a * 400 + b * 100 + c * 4 + 3 + 1" "m = 12" "d = 31"
        using res unf e4 by simp_all
      show ?thesis
        unfolding ymd using dec31 [of b c a] nN e4 r0 a0 b0 b3 c0 c23 by simp
    next
      case en4: False
      then have e3: "e \<le> 3" using e0 by simp
      define L where "L = (e = 3 \<and> (c \<noteq> 24 \<or> b = 3))"
      obtain m' d' where md: "month_day L r = (m', d')" by (cases "month_day L r") 
      have ymd: "y = a * 400 + b * 100 + c * 4 + e + 1" "m = m'" "d = d'"
        using res unf bn4 en4 md L_def by simp_all
      have mdok: "1 \<le> m' \<and> m' \<le> 12 \<and> 1 \<le> d'
         \<and> d' \<le> (if m' = 2 \<and> L then 29 else DAYS_IN_MONTH ! nat m')
         \<and> DAYS_BEFORE_MONTH ! nat m' + (if 2 < m' \<and> L then 1 else 0) + d' = r + 1"
        using R3 md by (intro month_day_ok) simp_all
      have leap: "is_leap (a * 400 + b * 100 + c * 4 + e + 1) = L"
        unfolding L_def using b0 b3 c0 e0 e3 by (intro leap_decomp) simp_all
      have dby: "days_before_year (a * 400 + b * 100 + c * 4 + e + 1)
           = 146097 * a + 36524 * b + 1461 * c + 365 * e"
        using b0 b3 c0 e0 e3 by (intro dby_decomp) simp_all
      show ?thesis
        unfolding ymd using mdok leap dby nN a0 b0 c0 e0
        by (simp add: ymd2ord_def days_before_month_def days_in_month_def)
    qed
  qed
qed

lemma ord2ymd_year_le:
  assumes n: "0 < n" "n \<le> MAXORDINAL" and res: "ord2ymd n = (y, m, d)"
  shows "y \<le> 9999"
proof (rule ccontr)
  assume "\<not> y \<le> 9999"
  then have "10000 \<le> y" by simp
  then have big: "3652059 \<le> days_before_year y" by (rule dby_big)
  from ord2ymd_ok [OF n(1) res]
  have eq: "ymd2ord y m d = n" and m: "1 \<le> m" "m \<le> 12" and d: "1 \<le> d" by simp_all
  have "0 \<le> days_before_month y m"
  proof -
    from m have "m = 1 \<or> m = 2 \<or> m = 3 \<or> m = 4 \<or> m = 5 \<or> m = 6 \<or> m = 7 \<or> m = 8 \<or> m = 9
             \<or> m = 10 \<or> m = 11 \<or> m = 12" by presburger
    then show ?thesis
      by (elim disjE; simp add: days_before_month_def DAYS_BEFORE_MONTH_def)
  qed
  with big d eq n(2) show False
    by (simp add: ymd2ord_def MAXORDINAL_def)
qed

lemma month_cases:
  fixes m :: int
  assumes "1 \<le> m" "m \<le> 12"
  shows "m = 1 \<or> m = 2 \<or> m = 3 \<or> m = 4 \<or> m = 5 \<or> m = 6 \<or> m = 7 \<or> m = 8 \<or> m = 9
         \<or> m = 10 \<or> m = 11 \<or> m = 12"
  using assms by presburger

lemma day_of_year:
  assumes "1 \<le> m" "m \<le> 12"
  shows "0 \<le> days_before_month y m" and "days_in_month y m \<le> 31"
    and "days_before_month y m + days_in_month y m \<le> 365 + (if is_leap y then 1 else 0)"
  using month_cases [OF assms]
  by (elim disjE; simp add: days_before_month_def days_in_month_def
        DAYS_BEFORE_MONTH_def DAYS_IN_MONTH_def)+

lemma ymd2ord_range:
  assumes y: "1 \<le> y" "y \<le> 9999" and m: "1 \<le> m" "m \<le> 12"
    and d: "1 \<le> d" "d \<le> days_in_month y m"
  shows "1 \<le> ymd2ord y m d" and "ymd2ord y m d \<le> MAXORDINAL"
proof -
  from y have "0 \<le> y - 1" by simp
  then obtain a b c e where z: "y - 1 = a * 400 + b * 100 + c * 4 + e"
    and bnd: "0 \<le> a" "0 \<le> b" "b \<le> 3" "0 \<le> c" "c \<le> 24" "0 \<le> e" "e \<le> 3"
    by (rule year_decomp)
  have yy: "y = a * 400 + b * 100 + c * 4 + e + 1" using z by simp
  have dby: "days_before_year y = 146097 * a + 36524 * b + 1461 * c + 365 * e"
    unfolding yy using bnd(2-) by (rule dby_decomp)
  have leap: "is_leap y = (e = 3 \<and> (c \<noteq> 24 \<or> b = 3))"
    unfolding yy using bnd(2-) by (rule leap_decomp)
  have lo: "0 \<le> days_before_month y m"
    and hi: "days_before_month y m + d \<le> 365 + (if is_leap y then 1 else 0)"
    using day_of_year(1,3) [OF m, of y] d by linarith+
  show "1 \<le> ymd2ord y m d"
    unfolding ymd2ord_def using dby bnd lo d by linarith
  have a24: "a \<le> 24" using y yy bnd by linarith
  have "days_before_year y + 365 + (if is_leap y then 1 else 0) \<le> 3652059"
  proof (cases "a = 24")
    case False
    with a24 have "a \<le> 23" by simp
    with dby bnd show ?thesis by (simp split: if_splits)
  next
    case a: True
    show ?thesis
    proof (cases "b = 3 \<and> c = 24")
      case True
      with y yy a bnd have "e \<le> 2" by linarith
      with dby a True leap bnd show ?thesis by simp
    next
      case False
      then have "b \<le> 2 \<or> c \<le> 23" using bnd by linarith
      with dby a bnd show ?thesis by (auto split: if_splits)
    qed
  qed
  with hi show "ymd2ord y m d \<le> MAXORDINAL"
    unfolding ymd2ord_def MAXORDINAL_def by linarith
qed

lemma toordinal_range:
  assumes "valid_datetime d"
  shows "1 \<le> toordinal d" and "toordinal d \<le> MAXORDINAL"
  using assms ymd2ord_range [of "year d" "month d" "day d"]
  by (simp_all add: valid_datetime_def toordinal_def)

lemma sub_days_Inr:
  assumes v: "valid_datetime d" and k: "0 < toordinal d - n" "toordinal d - n \<le> MAXORDINAL"
  shows "\<exists>s. sub_days d n = Inr s \<and> valid_datetime s \<and> toordinal s = toordinal d - n"
proof -
  obtain y m dd where o: "ord2ymd (toordinal d - n) = (y, m, dd)"
    by (cases "ord2ymd (toordinal d - n)")
  from ord2ymd_ok [OF k(1) o] ord2ymd_year_le [OF k o]
  have ok: "ymd2ord y m dd = toordinal d - n" "1 \<le> y" "y \<le> 9999" "1 \<le> m" "m \<le> 12"
    "1 \<le> dd" "dd \<le> days_in_month y m"
    by simp_all
  from toordinal_range [OF v] k have "\<bar>n\<bar> \<le> 999999999"
    by (simp add: MAXORDINAL_def)
  then have "sub_days d n = Inr (d\<lparr>year := y, month := m, day := dd\<rparr>)"
    using k o by (simp add: sub_days_def)
  moreover have "valid_datetime (d\<lparr>year := y, month := m, day := dd\<rparr>)"
    using v ok by (simp add: valid_datetime_def)
  moreover have "toordinal (d\<lparr>year := y, month := m, day := dd\<rparr>) = toordinal d - n"
    using ok by (simp add: toordinal_def)
  ultimately show ?thesis by blast
qed

lemma sub_days_Inl:
  assumes "\<not> (0 < toordinal d - n \<and> toordinal d - n \<le> MAXORDINAL)"
  shows "sub_days d n = Inl OverflowError"
  using assms by (auto simp: sub_days_def Let_def)

lemma length_digits_step: "10 \<le> n \<Longrightarrow> length (digits n) = Suc (length (digits (n div 10)))"
  by (subst digits.simps) simp

lemma digits_lt10: "n < 10 \<Longrightarrow> length (digits n) = 1"
  by (subst digits.simps) simp

lemma digits_lt100:
  assumes "10 \<le> n" "n < 100"
  shows "length (digits n) = 2"
proof -
  from assms have "n div 10 < 10" by simp
  then have "length (digits (n div 10)) = 1" by (rule digits_lt10)
  with length_digits_step [OF assms(1)] show ?thesis by simp
qed

lemma digits_lt1000:
  assumes "100 \<le> n" "n < 1000"
  shows "length (digits n) = 3"
proof -
  from assms have "10 \<le> n div 10" "n div 10 < 100" "10 \<le> n" by simp_all
  with digits_lt100 [of "n div 10"] length_digits_step [of n] show ?thesis by simp
qed

lemma digits_lt10000:
  assumes "1000 \<le> n" "n < 10000"
  shows "length (digits n) = 4"
proof -
  from assms have "100 \<le> n div 10" "n div 10 < 1000" "10 \<le> n" by simp_all
  with digits_lt1000 [of "n div 10"] length_digits_step [of n] show ?thesis by simp
qed

lemma digits_le3: "n < 1000 \<Longrightarrow> length (digits n) \<le> 3"
  using digits_lt10 [of n] digits_lt100 [of n] digits_lt1000 [of n]
  by (cases "n < 10"; cases "n < 100") simp_all

lemma digits_le2: "n < 100 \<Longrightarrow> length (digits n) \<le> 2"
  using digits_lt10 [of n] digits_lt100 [of n] by (cases "n < 10") simp_all

lemma digit_char: "n < 10 \<Longrightarrow> is_digit (''0123456789'' ! n)"
  unfolding is_digit_def by (rule nth_mem) simp

lemma digits_all: "list_all is_digit (digits n)"
proof (induction n rule: digits.induct)
  case (1 n)
  show ?case
  proof (cases "n < 10")
    case True
    then show ?thesis by (subst digits.simps) (simp add: digit_char)
  next
    case False
    then show ?thesis using 1 by (subst digits.simps) (simp add: digit_char)
  qed
qed

lemma zfill_digits:
  assumes "length (digits n) \<le> w"
  shows "length (zfill w (digits n)) = w" and "list_all is_digit (zfill w (digits n))"
proof -
  have "is_digit (CHR ''0'')" by (simp add: is_digit_def)
  with assms digits_all [of n]
  show "length (zfill w (digits n)) = w" and "list_all is_digit (zfill w (digits n))"
    by (auto simp: zfill_def list_all_iff)
qed

lemma date_format_eq:
  "date_format d = digits (nat (year d)) @ ''-'' @ zfill 2 (digits (nat (month d)))
                   @ ''-'' @ zfill 2 (digits (nat (day d)))"
  by (simp add: date_format_def DATE_FORMAT_def)

lemma shape_YYYY_MM_DD:
  assumes "length a = 4" "length b = 2" "length c = 2"
    "list_all is_digit a" "list_all is_digit b" "list_all is_digit c"
  shows "is_YYYY_MM_DD (a @ ''-'' @ b @ ''-'' @ c)"
  using assms by (simp add: is_YYYY_MM_DD_def nth_append)

text \<open>
  The formatted date has the shape YYYY-MM-DD exactly when the year has four digits.
\<close>

lemma date_format_shape:
  assumes "valid_datetime d"
  shows "is_YYYY_MM_DD (date_format d) = (1000 \<le> year d)"
proof (cases "1000 \<le> year d")
  case True
  with assms have y: "1000 \<le> nat (year d)" "nat (year d) < 10000"
    and m: "nat (month d) < 100"
    unfolding valid_datetime_def by linarith+
  from assms day_of_year(2) [of "month d" "year d"] have dd: "nat (day d) < 100"
    unfolding valid_datetime_def by linarith
  have "is_YYYY_MM_DD (date_format d)"
    unfolding date_format_eq
    by (intro shape_YYYY_MM_DD zfill_digits digits_lt10000 digits_le2 digits_all y m dd)
  with True show ?thesis by simp
next
  case False
  with assms have y: "nat (year d) < 1000" and m: "nat (month d) < 100"
    unfolding valid_datetime_def by linarith+
  from assms day_of_year(2) [of "month d" "year d"] have dd: "nat (day d) < 100"
    unfolding valid_datetime_def by linarith
  have "length (date_format d) \<le> 9"
    unfolding date_format_eq
    using digits_le3 [OF y] zfill_digits(1) [OF digits_le2 [OF m]]
      zfill_digits(1) [OF digits_le2 [OF dd]]
    by simp
  then have "\<not> is_YYYY_MM_DD (date_format d)" by (simp add: is_YYYY_MM_DD_def)
  with False show ?thesis by simp
qed

lemma params_list:
  assumes "p = [(''symbol'', a), (''sort'', b), (''date_from'', c), (''date_to'', d),
                (''api_token'', t)]"
  shows "map fst p = [''symbol'', ''sort'', ''date_from'', ''date_to'', ''api_token'']"
    and "map_of p ''date_from'' = Some c" and "map_of p ''date_to'' = Some d"
    and "map_of p ''api_token'' = Some t"
  unfolding assms by simp_all

lemma params_Some:
  "get_wtd_query_params env today symb (Some s) ed pd srt =
     Inr [(''symbol'', Str symb), (''sort'', Str srt), (''date_from'', Str (date_format s)),
          (''date_to'', Str (date_format (case ed of None \<Rightarrow> today | Some e \<Rightarrow> e))),
          (''api_token'', token_value env)]"
  by (simp add: get_wtd_query_params_def token_value_def WTD_API_TOKEN_def Let_def)

lemma params_None:
  "get_wtd_query_params env today symb None ed pd srt =
     (case sub_days (case ed of None \<Rightarrow> today | Some e \<Rightarrow> e) pd of
        Inl err \<Rightarrow> Inl err
      | Inr s \<Rightarrow>
          Inr [(''symbol'', Str symb), (''sort'', Str srt), (''date_from'', Str (date_format s)),
               (''date_to'', Str (date_format (case ed of None \<Rightarrow> today | Some e \<Rightarrow> e))),
               (''api_token'', token_value env)])"
  by (simp add: get_wtd_query_params_def token_value_def WTD_API_TOKEN_def Let_def
      split: sum.splits)

text \<open>Every call either raises OverflowError from the date arithmetic or returns the dict.\<close>

lemma params_cases:
  assumes "valid_datetime e" "e = (case ed of None \<Rightarrow> today | Some x \<Rightarrow> x)"
  obtains (overflow) "sd = None" "\<not> (0 < toordinal e - pd \<and> toordinal e - pd \<le> MAXORDINAL)"
      "get_wtd_query_params env today symb sd ed pd srt = Inl OverflowError"
  | (computed) s where "sd = None" "0 < toordinal e - pd" "toordinal e - pd \<le> MAXORDINAL"
      "valid_datetime s" "toordinal s = toordinal e - pd"
      "get_wtd_query_params env today symb sd ed pd srt =
         Inr [(''symbol'', Str symb), (''sort'', Str srt), (''date_from'', Str (date_format s)),
              (''date_to'', Str (date_format e)), (''api_token'', token_value env)]"
  | (given) s where "sd = Some s"
      "get_wtd_query_params env today symb sd ed pd srt =
         Inr [(''symbol'', Str symb), (''sort'', Str srt), (''date_from'', Str (date_format s)),
              (''date_to'', Str (date_format e)), (''api_token'', token_value env)]"
proof (cases sd)
  case (Some s)
  then show thesis using given [of s] assms(2) by (simp add: params_Some)
next
  case None
  show thesis
  proof (cases "0 < toordinal e - pd \<and> toordinal e - pd \<le> MAXORDINAL")
    case False
    then have "sub_days e pd = Inl OverflowError" by (rule sub_days_Inl)
    then show thesis using overflow None False assms(2) by (simp add: params_None)
  next
    case True
    with sub_days_Inr [OF assms(1), of pd] obtain s where
      s: "sub_days e pd = Inr s" "valid_datetime s" "toordinal s = toordinal e - pd"
      by blast
    show thesis
      using computed [of s] None True s assms(2) by (simp add: params_None)
  qed
qed

section \<open>The query parameters\<close>

text \<open>The equations that evaluate the date functions on concrete dates.\<close>

lemmas date_eval = valid_opt_def valid_datetime_def datetime_ymd_def days_in_month_def DAYS_IN_MONTH_def
  is_leap_def toordinal_def ymd2ord_def days_before_year_def days_before_month_def
  DAYS_BEFORE_MONTH_def MAXORDINAL_def

lemmas params_eval = get_wtd_query_params_def sub_days_def ord2ymd_def month_day_def Let_def
  date_format_def DATE_FORMAT_def zfill_def digits.simps WTD_API_TOKEN_def

text \<open>
  Claim C8 says that both dates are always written as YYYY-MM-DD. A date before the
  year 1000 is not: 400000 days before 2018-10-16 is the 18th of August 923, and the
  call returns date_from \<^verbatim>\<open>923-08-18\<close>, nine characters with a year of three digits.
\<close>

theorem date_shape_counterexample:
  "get_wtd_query_params Map.empty (datetime_ymd 2018 10 20) ''UKX'' None
        (Some (datetime_ymd 2018 10 16)) 400000 ''oldest''
      = Inr [(''symbol'', Str ''UKX''), (''sort'', Str ''oldest''),
             (''date_from'', Str ''923-08-18''), (''date_to'', Str ''2018-10-16''),
             (''api_token'', NoneVal)]
   \<and> \<not> is_YYYY_MM_DD ''923-08-18''"
  by (simp add: params_eval date_eval is_YYYY_MM_DD_def)

text \<open>
  Claim C8, as the code has it. For every call of \<^verbatim>\<open>get_wtd_query_params\<close> with
  datetime objects: an absent \<open>end_date\<close> gives the result of the call with the clock's
  reading as \<open>end_date\<close>; with \<open>start_date\<close> absent, the start date is the date
  \<open>previous_days\<close> calendar days before the end date (its ordinal is the end date's
  minus \<open>previous_days\<close>), and the call raises OverflowError exactly when that day is
  outside the calendar; with \<open>start_date\<close> given, the call returns and its result is
  the same for every \<open>previous_days\<close>; and every dict returned has exactly the keys
  symbol, sort, date_from, date_to and api_token, with date_from the formatted start
  date and date_to the formatted end date, each in the shape YYYY-MM-DD exactly when
  its year is 1000 or later.
\<close>

theorem query_params_contract:
  assumes "valid_datetime today" "valid_opt start_date" "valid_opt end_date"
  shows "(end_date = None \<longrightarrow>
            get_wtd_query_params env today symb start_date end_date pd srt
            = get_wtd_query_params env today symb start_date (Some today) pd srt)
       \<and> (start_date = None \<longrightarrow>
            (let e = (case end_date of None \<Rightarrow> today | Some x \<Rightarrow> x)
             in if 0 < toordinal e - pd \<and> toordinal e - pd \<le> MAXORDINAL
                then \<exists>s p. get_wtd_query_params env today symb start_date end_date pd srt = Inr p
                       \<and> valid_datetime s \<and> toordinal s = toordinal e - pd
                       \<and> map_of p ''date_from'' = Some (Str (date_format s))
                else get_wtd_query_params env today symb start_date end_date pd srt
                       = Inl OverflowError))
       \<and> (\<forall>s. start_date = Some s \<longrightarrow>
            (\<forall>pd'. get_wtd_query_params env today symb start_date end_date pd' srt
                   = get_wtd_query_params env today symb start_date end_date pd srt)
            \<and> (\<exists>p. get_wtd_query_params env today symb start_date end_date pd srt = Inr p
                   \<and> map_of p ''date_from'' = Some (Str (date_format s))))
       \<and> (\<forall>p. get_wtd_query_params env today symb start_date end_date pd srt = Inr p \<longrightarrow>
            map fst p = [''symbol'', ''sort'', ''date_from'', ''date_to'', ''api_token'']
            \<and> (\<exists>s e. e = (case end_date of None \<Rightarrow> today | Some x \<Rightarrow> x)
                   \<and> valid_datetime s
                   \<and> (case start_date of
                         None \<Rightarrow> toordinal s = toordinal e - pd
                       | Some x \<Rightarrow> s = x)
                   \<and> map_of p ''date_from'' = Some (Str (date_format s))
                   \<and> is_YYYY_MM_DD (date_format s) = (1000 \<le> year s)
                   \<and> map_of p ''date_to'' = Some (Str (date_format e))
                   \<and> is_YYYY_MM_DD (date_format e) = (1000 \<le> year e)))"
proof -
  define e where "e = (case end_date of None \<Rightarrow> today | Some x \<Rightarrow> x)"
  define r where "r = get_wtd_query_params env today symb start_date end_date pd srt"
  have ve: "valid_datetime e"
    using assms by (simp add: e_def valid_opt_def split: option.splits)
  have c1: "end_date = None \<longrightarrow>
            r = get_wtd_query_params env today symb start_date (Some today) pd srt"
    unfolding r_def by (simp add: get_wtd_query_params_def)
  have c3: "\<forall>s. start_date = Some s \<longrightarrow>
            (\<forall>pd'. get_wtd_query_params env today symb start_date end_date pd' srt = r)
            \<and> (\<exists>p. r = Inr p \<and> map_of p ''date_from'' = Some (Str (date_format s)))"
    unfolding r_def by (simp add: params_Some)
  have c24: "(start_date = None \<longrightarrow>
            (if 0 < toordinal e - pd \<and> toordinal e - pd \<le> MAXORDINAL
                then \<exists>s p. r = Inr p \<and> valid_datetime s \<and> toordinal s = toordinal e - pd
                       \<and> map_of p ''date_from'' = Some (Str (date_format s))
                else r = Inl OverflowError))
       \<and> (\<forall>p. r = Inr p \<longrightarrow>
            map fst p = [''symbol'', ''sort'', ''date_from'', ''date_to'', ''api_token'']
            \<and> (\<exists>s. valid_datetime s
                   \<and> (case start_date of
                         None \<Rightarrow> toordinal s = toordinal e - pd
                       | Some x \<Rightarrow> s = x)
                   \<and> map_of p ''date_from'' = Some (Str (date_format s))
                   \<and> is_YYYY_MM_DD (date_format s) = (1000 \<le> year s)
                   \<and> map_of p ''date_to'' = Some (Str (date_format e))
                   \<and> is_YYYY_MM_DD (date_format e) = (1000 \<le> year e)))"
    using ve e_def
  proof (cases rule: params_cases [where sd = start_date and pd = pd and env = env
        and symb = symb and srt = srt])
    case overflow
    then show ?thesis unfolding r_def by simp
  next
    case (computed s)
    note pl = params_list [OF refl, of "Str symb" "Str srt" "Str (date_format s)"
        "Str (date_format e)" "token_value env"]
    have "r = Inr [(''symbol'', Str symb), (''sort'', Str srt),
              (''date_from'', Str (date_format s)),
              (''date_to'', Str (date_format e)), (''api_token'', token_value env)]"
      unfolding r_def by (rule computed(6))
    then show ?thesis
      using computed(1-5) pl date_format_shape [OF ve] date_format_shape [OF computed(4)]
      by (simp del: map_of.simps list.map) blast
  next
    case (given s)
    with assms(2) have vs: "valid_datetime s" by (simp add: valid_opt_def)
    note pl = params_list [OF refl, of "Str symb" "Str srt" "Str (date_format s)"
        "Str (date_format e)" "token_value env"]
    have "r = Inr [(''symbol'', Str symb), (''sort'', Str srt),
              (''date_from'', Str (date_format s)),
              (''date_to'', Str (date_format e)), (''api_token'', token_value env)]"
      unfolding r_def by (rule given(2))
    then show ?thesis
      using given(1) pl vs date_format_shape [OF ve] date_format_shape [OF vs]
      by (simp del: map_of.simps list.map)
  qed
  show ?thesis
    using c1 c3 c24 unfolding e_def r_def Let_def by blast
qed

text \<open>
  The contract at a concrete call: the clock reads 2018-10-20, the end date is
  2018-10-16, no start date, 300 days, no token in the environment. Both dates are of
  years after 1000 and have the shape YYYY-MM-DD.
\<close>

theorem query_params_contract_witness:
  "valid_datetime (datetime_ymd 2018 10 20) \<and> valid_opt None \<and> valid_opt (Some (datetime_ymd 2018 10 16))
   \<and> (\<exists>s p. get_wtd_query_params Map.empty (datetime_ymd 2018 10 20) ''UKX'' None
                (Some (datetime_ymd 2018 10 16)) 300 ''oldest'' = Inr p
          \<and> valid_datetime s \<and> toordinal s = toordinal (datetime_ymd 2018 10 16) - 300
          \<and> map_of p ''date_from'' = Some (Str (date_format s)))
   \<and> get_wtd_query_params Map.empty (datetime_ymd 2018 10 20) ''UKX'' None
        (Some (datetime_ymd 2018 10 16)) 300 ''oldest''
      = Inr [(''symbol'', Str ''UKX''), (''sort'', Str ''oldest''),
             (''date_from'', Str ''2017-12-20''), (''date_to'', Str ''2018-10-16''),
             (''api_token'', NoneVal)]
   \<and> is_YYYY_MM_DD ''2017-12-20'' \<and> is_YYYY_MM_DD ''2018-10-16''"
proof -
  have v: "valid_datetime (datetime_ymd 2018 10 20)" "valid_opt None" "valid_opt (Some (datetime_ymd 2018 10 16))"
    by (simp_all add: date_eval)
  have rng: "0 < toordinal (datetime_ymd 2018 10 16) - 300 \<and> toordinal (datetime_ymd 2018 10 16) - 300 \<le> MAXORDINAL"
    by (simp add: date_eval)
  have ev: "get_wtd_query_params Map.empty (datetime_ymd 2018 10 20) ''UKX'' None
        (Some (datetime_ymd 2018 10 16)) 300 ''oldest''
      = Inr [(''symbol'', Str ''UKX''), (''sort'', Str ''oldest''),
             (''date_from'', Str ''2017-12-20''), (''date_to'', Str ''2018-10-16''),
             (''api_token'', NoneVal)]"
    by (simp add: params_eval date_eval)
  have sh: "is_YYYY_MM_DD ''2017-12-20''" "is_YYYY_MM_DD ''2018-10-16''"
    by (simp_all add: is_YYYY_MM_DD_def is_digit_def)
  from query_params_contract [OF v, where env = Map.empty and symb = "''UKX''" and pd = 300
      and srt = "''oldest''"] rng
  have "\<exists>s p. get_wtd_query_params Map.empty (datetime_ymd 2018 10 20) ''UKX'' None
                (Some (datetime_ymd 2018 10 16)) 300 ''oldest'' = Inr p
          \<and> valid_datetime s \<and> toordinal s = toordinal (datetime_ymd 2018 10 16) - 300
          \<and> map_of p ''date_from'' = Some (Str (date_format s))"
    by (simp add: Let_def)
  with v ev sh show ?thesis by blast
qed

text \<open>
  Claim C9. The dict a call returns holds under api_token the value of the environment
  variable WTD_API_TOKEN, None when the variable is not set; the only exception a call
  can raise is the OverflowError of the date arithmetic, so a missing token is never
  rejected: with the variable unset and a start date given, every call returns a dict
  whose api_token is None.
\<close>

theorem api_token_from_environment:
  "(case get_wtd_query_params env today symb start_date end_date pd srt of
      Inl err \<Rightarrow> err = OverflowError \<and> start_date = None
    | Inr p \<Rightarrow> map_of p ''api_token''
               = Some (case env ''WTD_API_TOKEN'' of None \<Rightarrow> NoneVal | Some t \<Rightarrow> Str t))
   \<and> (\<forall>s. \<exists>p. get_wtd_query_params (env(''WTD_API_TOKEN'' := None)) today symb (Some s)
                 end_date pd srt = Inr p
             \<and> map_of p ''api_token'' = Some NoneVal)"
proof -
  have 1: "(case get_wtd_query_params env today symb start_date end_date pd srt of
      Inl err \<Rightarrow> err = OverflowError \<and> start_date = None
    | Inr p \<Rightarrow> map_of p ''api_token''
               = Some (case env ''WTD_API_TOKEN'' of None \<Rightarrow> NoneVal | Some t \<Rightarrow> Str t))"
  proof (cases start_date)
    case (Some s)
    then show ?thesis by (simp add: params_Some token_value_def)
  next
    case None
    then show ?thesis
      by (simp add: params_None token_value_def sub_days_def Let_def
          split: sum.splits prod.splits)
  qed
  have 2: "\<exists>p. get_wtd_query_params (env(''WTD_API_TOKEN'' := None)) today symb (Some s)
                 end_date pd srt = Inr p
             \<and> map_of p ''api_token'' = Some NoneVal" for s
    by (simp add: params_Some token_value_def)
  from 1 2 show ?thesis by blast
qed

text \<open>A call with no token in the environment and both dates absent.\<close>

theorem api_token_from_environment_witness:
  "get_wtd_query_params Map.empty (datetime_ymd 2018 10 20) ''UKX'' None None 300 ''oldest''
     = Inr [(''symbol'', Str ''UKX''), (''sort'', Str ''oldest''),
            (''date_from'', Str ''2017-12-24''), (''date_to'', Str ''2018-10-20''),
            (''api_token'', NoneVal)]
   \<and> map_of [(''symbol'', Str ''UKX''), (''sort'', Str ''oldest''),
            (''date_from'', Str ''2017-12-24''), (''date_to'', Str ''2018-10-20''),
            (''api_token'', NoneVal)] ''api_token'' = Some NoneVal"
proof -
  have ev: "get_wtd_query_params Map.empty (datetime_ymd 2018 10 20) ''UKX'' None None 300 ''oldest''
     = Inr [(''symbol'', Str ''UKX''), (''sort'', Str ''oldest''),
            (''date_from'', Str ''2017-12-24''), (''date_to'', Str ''2018-10-20''),
            (''api_token'', NoneVal)]"
    by (simp add: params_eval date_eval)
  with api_token_from_environment [where env = Map.empty and today = "datetime_ymd 2018 10 20"
      and symb = "''UKX''" and start_date = None and end_date = None and pd = 300
      and srt = "''oldest''"]
  show ?thesis by simp
qed



text \<open>
  Claim C10. The dates are never compared. A call with both dates given returns them
  formatted, whatever their order; a call with a negative \<open>previous_days\<close> returns a
  date_from that is later than its date_to.
\<close>

theorem no_date_order_check:
  "get_wtd_query_params env today symb (Some s) (Some e) pdx srt
     = Inr [(''symbol'', Str symb), (''sort'', Str srt), (''date_from'', Str (date_format s)),
            (''date_to'', Str (date_format e)),
            (''api_token'', (case env ''WTD_API_TOKEN'' of None \<Rightarrow> NoneVal | Some t \<Rightarrow> Str t))]
   \<and> (valid_datetime e \<and> pd < 0 \<and> toordinal e - pd \<le> MAXORDINAL \<longrightarrow>
        (\<exists>s'. valid_datetime s' \<and> toordinal e < toordinal s'
            \<and> get_wtd_query_params env today symb None (Some e) pd srt
              = Inr [(''symbol'', Str symb), (''sort'', Str srt),
                     (''date_from'', Str (date_format s')), (''date_to'', Str (date_format e)),
                     (''api_token'',
                      (case env ''WTD_API_TOKEN'' of None \<Rightarrow> NoneVal | Some t \<Rightarrow> Str t))]))"
proof (intro conjI impI)
  show "get_wtd_query_params env today symb (Some s) (Some e) pdx srt
     = Inr [(''symbol'', Str symb), (''sort'', Str srt), (''date_from'', Str (date_format s)),
            (''date_to'', Str (date_format e)),
            (''api_token'', (case env ''WTD_API_TOKEN'' of None \<Rightarrow> NoneVal | Some t \<Rightarrow> Str t))]"
    by (simp add: params_Some token_value_def)
next
  assume a: "valid_datetime e \<and> pd < 0 \<and> toordinal e - pd \<le> MAXORDINAL"
  with toordinal_range [of e] have "0 < toordinal e - pd" by linarith
  with a sub_days_Inr [of e pd] obtain s' where
    s: "sub_days e pd = Inr s'" "valid_datetime s'" "toordinal s' = toordinal e - pd"
    by blast
  from s(3) a have "toordinal e < toordinal s'" by linarith
  moreover have "get_wtd_query_params env today symb None (Some e) pd srt
              = Inr [(''symbol'', Str symb), (''sort'', Str srt),
                     (''date_from'', Str (date_format s')), (''date_to'', Str (date_format e)),
                     (''api_token'',
                      (case env ''WTD_API_TOKEN'' of None \<Rightarrow> NoneVal | Some t \<Rightarrow> Str t))]"
    using s(1) by (simp add: params_None token_value_def)
  ultimately show "\<exists>s'. valid_datetime s' \<and> toordinal e < toordinal s'
            \<and> get_wtd_query_params env today symb None (Some e) pd srt
              = Inr [(''symbol'', Str symb), (''sort'', Str srt),
                     (''date_from'', Str (date_format s')), (''date_to'', Str (date_format e)),
                     (''api_token'',
                      (case env ''WTD_API_TOKEN'' of None \<Rightarrow> NoneVal | Some t \<Rightarrow> Str t))]"
    using s(2) by blast
qed

text \<open>
  The start date 2018-10-17 with the end date 2018-10-16, and the end date 2018-10-16
  with \<open>previous_days = -1\<close>: both return date_from 2018-10-17 and date_to 2018-10-16.
\<close>

theorem no_date_order_check_witness:
  "toordinal (datetime_ymd 2018 10 16) < toordinal (datetime_ymd 2018 10 17)
   \<and> get_wtd_query_params Map.empty (datetime_ymd 2018 10 20) ''UKX'' (Some (datetime_ymd 2018 10 17))
        (Some (datetime_ymd 2018 10 16)) 300 ''oldest''
     = Inr [(''symbol'', Str ''UKX''), (''sort'', Str ''oldest''),
            (''date_from'', Str ''2018-10-17''), (''date_to'', Str ''2018-10-16''),
            (''api_token'', NoneVal)]
   \<and> valid_datetime (datetime_ymd 2018 10 16) \<and> (-1 :: int) < 0
   \<and> toordinal (datetime_ymd 2018 10 16) - (-1) \<le> MAXORDINAL
   \<and> (\<exists>s'. valid_datetime s' \<and> toordinal (datetime_ymd 2018 10 16) < toordinal s'
            \<and> get_wtd_query_params Map.empty (datetime_ymd 2018 10 20) ''UKX'' None
                 (Some (datetime_ymd 2018 10 16)) (-1) ''oldest''
              = Inr [(''symbol'', Str ''UKX''), (''sort'', Str ''oldest''),
                     (''date_from'', Str (date_format s')), (''date_to'', Str ''2018-10-16''),
                     (''api_token'', NoneVal)])
   \<and> get_wtd_query_params Map.empty (datetime_ymd 2018 10 20) ''UKX'' None
                 (Some (datetime_ymd 2018 10 16)) (-1) ''oldest''
              = Inr [(''symbol'', Str ''UKX''), (''sort'', Str ''oldest''),
                     (''date_from'', Str ''2018-10-17''), (''date_to'', Str ''2018-10-16''),
                     (''api_token'', NoneVal)]"
proof -
  have f16: "date_format (datetime_ymd 2018 10 16) = ''2018-10-16''"
    and f17: "date_format (datetime_ymd 2018 10 17) = ''2018-10-17''"
    by (simp_all add: params_eval date_eval)
  have tok: "(case Map.empty ''WTD_API_TOKEN'' of None \<Rightarrow> NoneVal | Some t \<Rightarrow> Str t) = NoneVal"
    by simp
  have h: "valid_datetime (datetime_ymd 2018 10 16) \<and> (-1 :: int) < 0
      \<and> toordinal (datetime_ymd 2018 10 16) - (-1) \<le> MAXORDINAL"
    by (simp add: date_eval)
  have lt: "toordinal (datetime_ymd 2018 10 16) < toordinal (datetime_ymd 2018 10 17)"
    by (simp add: date_eval)
  have ev: "get_wtd_query_params Map.empty (datetime_ymd 2018 10 20) ''UKX'' None
                 (Some (datetime_ymd 2018 10 16)) (-1) ''oldest''
              = Inr [(''symbol'', Str ''UKX''), (''sort'', Str ''oldest''),
                     (''date_from'', Str ''2018-10-17''), (''date_to'', Str ''2018-10-16''),
                     (''api_token'', NoneVal)]"
    by (simp add: params_eval date_eval)
  note T = no_date_order_check [where env = Map.empty and today = "datetime_ymd 2018 10 20"
      and symb = "''UKX''" and s = "datetime_ymd 2018 10 17" and e = "datetime_ymd 2018 10 16" and pdx = 300
      and pd = "-1" and srt = "''oldest''", unfolded f16 f17 tok]
  from T h lt ev show ?thesis by blast
qed

section \<open>The derived columns\<close>

lemma getitem_setitem:
  "getitem (setitem df k s) k' = (if k' = k then Inr s else getitem df k')"
  by (simp add: getitem_def setitem_def update_conv')

lemma index_setitem: "index (setitem df k s) = index df"
  by (simp add: setitem_def)

lemma column_setitem:
  "map_of (columns (setitem df k s)) k' = (if k' = k then Some s else map_of (columns df) k')"
  by (simp add: setitem_def update_conv')

lemma getitem_Some: "map_of (columns df) k = Some s \<Longrightarrow> getitem df k = Inr s"
  by (simp add: getitem_def)

text \<open>The frame the derived-column lines return, when the three columns they read exist.\<close>

lemma add_atr_columns_eq:
  assumes "map_of (columns df) ''high'' = Some h" "map_of (columns df) ''low'' = Some l"
    "map_of (columns df) ''close'' = Some c"
  shows "add_atr_columns df =
    Inr (setitem (setitem (setitem (setitem (setitem df
           ''TH-TL'' (series_sub h l))
           ''TH-YC'' (series_abs (series_sub h (shift l))))
           ''TL-YC'' (series_abs (series_sub l (shift c))))
           ''True Range'' (max_axis1 (length (index df))
                             [series_sub h l, series_abs (series_sub l (shift c))]))
           ''ATR (sma)'' (rolling_apply 14 (\<lambda>x. sum_list x / 14)
                            (max_axis1 (length (index df))
                               [series_sub h l, series_abs (series_sub l (shift c))])))"
  using assms
  by (simp add: add_atr_columns_def getitem_setitem getitem_Some index_setitem Let_def)

lemma length_series_sub [simp]: "length (series_sub a b) = min (length a) (length b)"
  by (simp add: series_sub_def)

lemma length_shift [simp]: "length (shift s) = length s"
  by (simp add: shift_def)

lemma length_series_abs [simp]: "length (series_abs s) = length s"
  by (simp add: series_abs_def)

lemma length_max_axis1 [simp]: "length (max_axis1 n cols) = n"
  by (simp add: max_axis1_def)

lemma length_rolling_apply [simp]: "length (rolling_apply w f s) = length s"
  by (simp add: rolling_apply_def)

lemma nth_series_sub:
  assumes "i < length a" "i < length b"
  shows "series_sub a b ! i =
     (case a ! i of None \<Rightarrow> None
      | Some u \<Rightarrow> (case b ! i of None \<Rightarrow> None | Some v \<Rightarrow> Some (u - v)))"
  using assms by (simp add: series_sub_def)

lemma nth_shift:
  assumes "i < length s"
  shows "shift s ! i = (if i = 0 then None else s ! (i - 1))"
  using assms by (cases i) (simp_all add: shift_def)

lemma nth_series_abs:
  assumes "i < length s"
  shows "series_abs s ! i = map_option abs (s ! i)"
  using assms by (simp add: series_abs_def)

lemma nanmax_pair:
  "nanmax [x, y] =
     (case x of None \<Rightarrow> y | Some a \<Rightarrow> (case y of None \<Rightarrow> Some a | Some b \<Rightarrow> Some (max a b)))"
  by (cases x; cases y) (simp_all add: nanmax_def max.commute)

lemma nth_max_axis1_pair:
  assumes "i < n"
  shows "max_axis1 n [a, b] ! i = nanmax [a ! i, b ! i]"
  using assms by (simp add: max_axis1_def)

lemma nth_rolling_apply:
  assumes "i < length s"
  shows "rolling_apply w f s ! i =
     (let window = drop (i + 1 - w) (take (i + 1) s)
      in if w \<le> length (filter (\<lambda>c. c \<noteq> None) window)
         then Some (f (map the window)) else None)"
  using assms by (simp add: rolling_apply_def)

lemma wf_frame_length:
  assumes "wf_frame df" "map_of (columns df) k = Some s"
  shows "length s = length (index df)"
proof -
  from assms(2) have "(k, s) \<in> set (columns df)" by (rule map_of_SomeD)
  with assms(1) show ?thesis by (auto simp: wf_frame_def list_all_iff)
qed

lemma window_upt:
  assumes "i < length s"
  shows "drop (i + 1 - w) (take (i + 1) s) = map ((!) s) [i + 1 - w..<i + 1]"
proof -
  have "take (i + 1) s = map ((!) s) [0..<i + 1]"
    using assms by (metis Suc_eq_plus1 Suc_leI take_upt map_nth take_map add_0)
  then show ?thesis by (simp add: drop_map)
qed

lemma filter_all_iff:
  "(length xs \<le> length (filter P xs)) = (\<forall>x\<in>set xs. P x)"
proof
  assume "length xs \<le> length (filter P xs)"
  then have "length (filter P xs) = length xs"
    using length_filter_le [of P xs] by simp
  then show "\<forall>x\<in>set xs. P x" by (metis filter_id_conv length_filter_less less_irrefl)
next
  assume "\<forall>x\<in>set xs. P x"
  then show "length xs \<le> length (filter P xs)" by (simp add: filter_id_conv)
qed

lemma nth_rolling_window:
  assumes "i < length s"
  shows "rolling_apply w f s ! i =
     (if w \<le> length (filter (\<lambda>c. c \<noteq> None) (map ((!) s) [i + 1 - w..<i + 1]))
      then Some (f (map the (map ((!) s) [i + 1 - w..<i + 1]))) else None)"
  unfolding nth_rolling_apply [OF assms] window_upt [OF assms] Let_def by (rule refl)

lemma rolling_defined:
  assumes "i < length s" "0 < w"
  shows "(rolling_apply w f s ! i \<noteq> None)
         = (w \<le> i + 1 \<and> (\<forall>j. i + 1 - w \<le> j \<and> j \<le> i \<longrightarrow> s ! j \<noteq> None))"
proof -
  define win where "win = map ((!) s) [i + 1 - w..<i + 1]"
  have len: "length win = min (i + 1) w" unfolding win_def using assms by auto
  have mem: "(\<forall>x\<in>set win. x \<noteq> None) = (\<forall>j. i + 1 - w \<le> j \<and> j \<le> i \<longrightarrow> s ! j \<noteq> None)"
    unfolding win_def by (auto simp: less_Suc_eq_le)
  have r: "(rolling_apply w f s ! i \<noteq> None) = (w \<le> length (filter (\<lambda>c. c \<noteq> None) win))"
    unfolding nth_rolling_window [OF assms(1)] win_def by simp
  show ?thesis
  proof (cases "w \<le> i + 1")
    case True
    then have "length win = w" using len by simp
    then have "(w \<le> length (filter (\<lambda>c. c \<noteq> None) win)) = (\<forall>x\<in>set win. x \<noteq> None)"
      using filter_all_iff [of win "\<lambda>c. c \<noteq> None"] by simp
    with mem r True show ?thesis by simp
  next
    case False
    then have "length win < w" using len by simp
    then have "\<not> w \<le> length (filter (\<lambda>c. c \<noteq> None) win)"
      using length_filter_le [of "\<lambda>c. c \<noteq> None" win] by linarith
    with r False show ?thesis by simp
  qed
qed

lemma rolling_value:
  assumes "i < length s" "rolling_apply w f s ! i \<noteq> None"
  shows "rolling_apply w f s ! i = Some (f (map (\<lambda>j. the (s ! j)) [i + 1 - w..<i + 1]))"
proof (cases "w \<le> length (filter (\<lambda>c. c \<noteq> None) (map ((!) s) [i + 1 - w..<i + 1]))")
  case True
  have m: "map the (map ((!) s) [i + 1 - w..<i + 1]) = map (\<lambda>j. the (s ! j)) [i + 1 - w..<i + 1]"
    by (simp only: map_map comp_def)
  from True show ?thesis
    unfolding nth_rolling_window [OF assms(1)] m by (simp only: if_True)
next
  case False
  then have "rolling_apply w f s ! i = None"
    unfolding nth_rolling_window [OF assms(1)] by (simp only: if_False)
  with assms(2) show ?thesis by (rule notE)
qed

lemma mean_upt:
  fixes g :: "nat \<Rightarrow> real"
  shows "sum_list (map g [i + 1 - 14..<i + 1]) / 14 = (\<Sum>j = i - 13..i. g j) / 14"
proof -
  have "sum_list (map g [i + 1 - 14..<i + 1]) = sum g (set [i + 1 - 14..<i + 1])"
    by (rule interv_sum_list_conv_sum_set_nat)
  moreover have "set [i + 1 - 14..<i + 1] = {i - 13..i}" by auto
  ultimately show ?thesis by (simp only:)
qed

text \<open>The equations that evaluate the frame operations on concrete frames.\<close>

lemmas frame_eval = add_atr_columns_def getitem_def setitem_def series_sub_def shift_def
  series_abs_def nanmax_def max_axis1_def rolling_apply_def Let_def

text \<open>The columns of the frame the derived-column lines return.\<close>

lemma add_atr_columns_cols:
  assumes "map_of (columns df) ''high'' = Some h" "map_of (columns df) ''low'' = Some l"
    "map_of (columns df) ''close'' = Some c"
  obtains df' where "add_atr_columns df = Inr df'" "index df' = index df"
    "map_of (columns df') ''TH-TL'' = Some (series_sub h l)"
    "map_of (columns df') ''TH-YC'' = Some (series_abs (series_sub h (shift l)))"
    "map_of (columns df') ''TL-YC'' = Some (series_abs (series_sub l (shift c)))"
    "map_of (columns df') ''True Range''
       = Some (max_axis1 (length (index df))
                 [series_sub h l, series_abs (series_sub l (shift c))])"
    "map_of (columns df') ''ATR (sma)''
       = Some (rolling_apply 14 (\<lambda>x. sum_list x / 14)
                 (max_axis1 (length (index df))
                    [series_sub h l, series_abs (series_sub l (shift c))]))"
proof -
  note e = add_atr_columns_eq [OF assms]
  show thesis
    by (rule that [OF e]) (simp_all add: column_setitem index_setitem)
qed

text \<open>
  Claim C4. For every frame with the high, low and close columns, the derived column
  TH-YC holds at every row \<open>i \<ge> 1\<close> the absolute value of \<open>high[i]\<close> minus the previous
  row's low, \<open>low[i - 1]\<close> (missing when either is missing), not the previous row's
  close; at row 0 it is missing.
\<close>

theorem th_yc_uses_previous_low:
  assumes "wf_frame df" "map_of (columns df) ''high'' = Some h"
    "map_of (columns df) ''low'' = Some l" "map_of (columns df) ''close'' = Some c"
  shows "\<exists>df' thyc. add_atr_columns df = Inr df'
           \<and> map_of (columns df') ''TH-YC'' = Some thyc
           \<and> length thyc = length (index df)
           \<and> (0 < length (index df) \<longrightarrow> thyc ! 0 = None)
           \<and> (\<forall>i. 1 \<le> i \<and> i < length (index df) \<longrightarrow>
                 thyc ! i = (case h ! i of None \<Rightarrow> None
                             | Some a \<Rightarrow> (case l ! (i - 1) of None \<Rightarrow> None
                                          | Some b \<Rightarrow> Some \<bar>a - b\<bar>)))"
proof -
  define n where "n = length (index df)"
  have len: "length h = n" "length l = n"
    unfolding n_def using assms by (simp_all add: wf_frame_length)
  obtain df' where df': "add_atr_columns df = Inr df'"
    "map_of (columns df') ''TH-YC'' = Some (series_abs (series_sub h (shift l)))"
    using assms(2-4) by (rule add_atr_columns_cols)
  define thyc where "thyc = series_abs (series_sub h (shift l))"
  have nth: "thyc ! i = (case h ! i of None \<Rightarrow> None
                 | Some a \<Rightarrow> (case shift l ! i of None \<Rightarrow> None | Some b \<Rightarrow> Some \<bar>a - b\<bar>))"
    if "i < n" for i
    unfolding thyc_def using that len
    by (simp add: nth_series_abs nth_series_sub split: option.splits)
  have "length thyc = n" unfolding thyc_def using len by simp
  moreover have "0 < n \<longrightarrow> thyc ! 0 = None"
    using nth [of 0] len by (simp add: nth_shift split: option.splits)
  moreover have "\<forall>i. 1 \<le> i \<and> i < n \<longrightarrow>
                 thyc ! i = (case h ! i of None \<Rightarrow> None
                             | Some a \<Rightarrow> (case l ! (i - 1) of None \<Rightarrow> None
                                          | Some b \<Rightarrow> Some \<bar>a - b\<bar>))"
    using nth len by (auto simp: nth_shift split: option.splits)
  ultimately show ?thesis
    using df' unfolding thyc_def [symmetric] n_def by blast
qed

lemma nth_true_range:
  assumes "i < n" "length h = n" "length l = n" "length c = n"
  shows "max_axis1 n [series_sub h l, series_abs (series_sub l (shift c))] ! i
         = (case series_sub h l ! i of
              None \<Rightarrow> series_abs (series_sub l (shift c)) ! i
            | Some a \<Rightarrow> (case series_abs (series_sub l (shift c)) ! i of
                           None \<Rightarrow> Some a | Some b \<Rightarrow> Some (max a b)))"
  using assms by (simp add: nth_max_axis1_pair nanmax_pair)

lemma nth_tl_yc:
  assumes "i < n" "length l = n" "length c = n"
  shows "series_abs (series_sub l (shift c)) ! i
         = (if i = 0 then None
            else case l ! i of None \<Rightarrow> None
                 | Some b \<Rightarrow> (case c ! (i - 1) of None \<Rightarrow> None | Some p \<Rightarrow> Some \<bar>b - p\<bar>))"
  using assms by (auto simp: nth_series_abs nth_series_sub nth_shift split: option.splits)

text \<open>
  Claim C1, as the code has it. For every frame with the high, low and close columns,
  True Range at row \<open>i\<close> is the maximum of those of TH-TL[i] and TL-YC[i] that are
  present, and is missing only when both are missing. At row 0, where TL-YC is missing,
  True Range is TH-TL[0], that is \<open>high[0] - low[0]\<close>. At a row \<open>i \<ge> 1\<close> where
  \<open>high[i]\<close>, \<open>low[i]\<close> and \<open>close[i - 1]\<close> are present, it is the larger of
  \<open>high[i] - low[i]\<close> and \<open>|low[i] - close[i - 1]|\<close>: TH-YC, and with it \<open>low[i - 1]\<close>,
  takes no part.
\<close>

theorem true_range_max_of_present:
  assumes "wf_frame df" "map_of (columns df) ''high'' = Some h"
    "map_of (columns df) ''low'' = Some l" "map_of (columns df) ''close'' = Some c"
  shows "\<exists>df' thtl tlyc tr. add_atr_columns df = Inr df'
           \<and> map_of (columns df') ''TH-TL'' = Some thtl
           \<and> map_of (columns df') ''TL-YC'' = Some tlyc
           \<and> map_of (columns df') ''True Range'' = Some tr
           \<and> length tr = length (index df)
           \<and> (\<forall>i. i < length (index df) \<longrightarrow>
                 tr ! i = (case thtl ! i of
                             None \<Rightarrow> tlyc ! i
                           | Some a \<Rightarrow> (case tlyc ! i of
                                          None \<Rightarrow> Some a | Some b \<Rightarrow> Some (max a b))))
           \<and> (0 < length (index df) \<longrightarrow>
                 tlyc ! 0 = None \<and> tr ! 0 = thtl ! 0
                 \<and> thtl ! 0 = (case h ! 0 of None \<Rightarrow> None
                               | Some a \<Rightarrow> (case l ! 0 of None \<Rightarrow> None
                                            | Some b \<Rightarrow> Some (a - b))))
           \<and> (\<forall>i a b p. 1 \<le> i \<and> i < length (index df) \<and> h ! i = Some a \<and> l ! i = Some b
                   \<and> c ! (i - 1) = Some p \<longrightarrow>
                 tr ! i = Some (max (a - b) \<bar>b - p\<bar>))"
proof -
  define n where "n = length (index df)"
  have len: "length h = n" "length l = n" "length c = n"
    unfolding n_def using assms by (simp_all add: wf_frame_length)
  define thtl where "thtl = series_sub h l"
  define tlyc where "tlyc = series_abs (series_sub l (shift c))"
  define tr where "tr = max_axis1 n [thtl, tlyc]"
  obtain df' where df': "add_atr_columns df = Inr df'"
    "map_of (columns df') ''TH-TL'' = Some thtl"
    "map_of (columns df') ''TL-YC'' = Some tlyc"
    "map_of (columns df') ''True Range'' = Some tr"
    unfolding thtl_def tlyc_def tr_def n_def using assms(2-4) by (rule add_atr_columns_cols)
  have tr: "tr ! i = (case thtl ! i of
                             None \<Rightarrow> tlyc ! i
                           | Some a \<Rightarrow> (case tlyc ! i of
                                          None \<Rightarrow> Some a | Some b \<Rightarrow> Some (max a b)))"
    if "i < n" for i
    unfolding tr_def thtl_def tlyc_def using that len by (rule nth_true_range)
  have tlyc: "tlyc ! i = (if i = 0 then None
            else case l ! i of None \<Rightarrow> None
                 | Some b \<Rightarrow> (case c ! (i - 1) of None \<Rightarrow> None | Some p \<Rightarrow> Some \<bar>b - p\<bar>))"
    if "i < n" for i
    unfolding tlyc_def using that len(2,3) by (rule nth_tl_yc)
  have thtl: "thtl ! i = (case h ! i of None \<Rightarrow> None
                               | Some a \<Rightarrow> (case l ! i of None \<Rightarrow> None
                                            | Some b \<Rightarrow> Some (a - b)))"
    if "i < n" for i
    unfolding thtl_def using that len by (simp add: nth_series_sub)
  have 1: "length tr = n" unfolding tr_def by simp
  have 2: "\<forall>i. i < n \<longrightarrow> tr ! i = (case thtl ! i of
                             None \<Rightarrow> tlyc ! i
                           | Some a \<Rightarrow> (case tlyc ! i of
                                          None \<Rightarrow> Some a | Some b \<Rightarrow> Some (max a b)))"
    using tr by blast
  have 3: "0 < n \<longrightarrow> tlyc ! 0 = None \<and> tr ! 0 = thtl ! 0
                 \<and> thtl ! 0 = (case h ! 0 of None \<Rightarrow> None
                               | Some a \<Rightarrow> (case l ! 0 of None \<Rightarrow> None
                                            | Some b \<Rightarrow> Some (a - b)))"
    using tr [of 0] tlyc [of 0] thtl [of 0] by (auto split: option.splits)
  have 4: "\<forall>i a b p. 1 \<le> i \<and> i < n \<and> h ! i = Some a \<and> l ! i = Some b
                   \<and> c ! (i - 1) = Some p \<longrightarrow>
                 tr ! i = Some (max (a - b) \<bar>b - p\<bar>)"
  proof (intro allI impI)
    fix i a b p
    assume a: "1 \<le> i \<and> i < n \<and> h ! i = Some a \<and> l ! i = Some b \<and> c ! (i - 1) = Some p"
    then have "thtl ! i = Some (a - b)" "tlyc ! i = Some \<bar>b - p\<bar>"
      using thtl [of i] tlyc [of i] by simp_all
    with a tr [of i] show "tr ! i = Some (max (a - b) \<bar>b - p\<bar>)" by simp
  qed
  from df' 1 2 3 4 show ?thesis unfolding n_def by blast
qed

text \<open>
  Claim C7. For every frame with the high, low and close columns in which the high of
  a row is at least its low wherever both are present, every True Range value that is
  present is non-negative.
\<close>

theorem true_range_nonnegative:
  assumes "wf_frame df" "map_of (columns df) ''high'' = Some h"
    "map_of (columns df) ''low'' = Some l" "map_of (columns df) ''close'' = Some c"
    and hl: "\<forall>i a b. i < length (index df) \<and> h ! i = Some a \<and> l ! i = Some b \<longrightarrow> b \<le> a"
  shows "\<exists>df' tr. add_atr_columns df = Inr df'
           \<and> map_of (columns df') ''True Range'' = Some tr
           \<and> length tr = length (index df)
           \<and> (\<forall>i v. i < length (index df) \<and> tr ! i = Some v \<longrightarrow> 0 \<le> v)"
proof -
  define n where "n = length (index df)"
  have len: "length h = n" "length l = n" "length c = n"
    unfolding n_def using assms by (simp_all add: wf_frame_length)
  define thtl where "thtl = series_sub h l"
  define tlyc where "tlyc = series_abs (series_sub l (shift c))"
  define tr where "tr = max_axis1 n [thtl, tlyc]"
  obtain df' where df': "add_atr_columns df = Inr df'"
    "map_of (columns df') ''True Range'' = Some tr"
    unfolding thtl_def tlyc_def tr_def n_def using assms(2-4) by (rule add_atr_columns_cols)
  have "0 \<le> v" if i: "i < n" and v: "tr ! i = Some v" for i v
  proof -
    have tr: "tr ! i = (case thtl ! i of
                             None \<Rightarrow> tlyc ! i
                           | Some a \<Rightarrow> (case tlyc ! i of
                                          None \<Rightarrow> Some a | Some b \<Rightarrow> Some (max a b)))"
      unfolding tr_def thtl_def tlyc_def using i len by (rule nth_true_range)
    have a: "0 \<le> x" if "thtl ! i = Some x" for x
      using that i len hl [unfolded n_def [symmetric]]
      unfolding thtl_def by (auto simp: nth_series_sub split: option.splits)
    have b: "0 \<le> y" if "tlyc ! i = Some y" for y
      using that i len unfolding tlyc_def
      by (auto simp: nth_series_abs split: option.splits)
    from v tr a b show ?thesis
      by (auto split: option.splits)
  qed
  moreover have "length tr = n" unfolding tr_def by simp
  ultimately show ?thesis using df' unfolding n_def by blast
qed

text \<open>
  Claim C2. For every frame with the high, low and close columns, the derived column
  ATR (sma) is present at row \<open>i\<close> if and only if \<open>i \<ge> 13\<close> and the fourteen True Range
  values of the rows \<open>i - 13\<close> to \<open>i\<close> are all present; when present, it is the sum of
  those fourteen values divided by 14.
\<close>

theorem atr_is_mean_of_full_window:
  assumes "map_of (columns df) ''high'' = Some h" "map_of (columns df) ''low'' = Some l"
    "map_of (columns df) ''close'' = Some c"
  shows "\<exists>df' tr atr. add_atr_columns df = Inr df'
           \<and> map_of (columns df') ''True Range'' = Some tr
           \<and> map_of (columns df') ''ATR (sma)'' = Some atr
           \<and> length tr = length (index df) \<and> length atr = length (index df)
           \<and> (\<forall>i. i < length (index df) \<longrightarrow>
                 (atr ! i \<noteq> None)
                   = (13 \<le> i \<and> (\<forall>j. i - 13 \<le> j \<and> j \<le> i \<longrightarrow> tr ! j \<noteq> None))
                 \<and> (atr ! i \<noteq> None \<longrightarrow>
                      atr ! i = Some ((\<Sum>j = i - 13..i. the (tr ! j)) / 14)))"
proof -
  define n where "n = length (index df)"
  define tr where "tr = max_axis1 n [series_sub h l, series_abs (series_sub l (shift c))]"
  define atr where "atr = rolling_apply 14 (\<lambda>x. sum_list x / 14) tr"
  obtain df' where df': "add_atr_columns df = Inr df'"
    "map_of (columns df') ''True Range'' = Some tr"
    "map_of (columns df') ''ATR (sma)'' = Some atr"
    unfolding tr_def atr_def n_def using assms by (rule add_atr_columns_cols)
  have ltr: "length tr = n" unfolding tr_def by simp
  have latr: "length atr = n" unfolding atr_def using ltr by simp
  have "(atr ! i \<noteq> None)
           = (13 \<le> i \<and> (\<forall>j. i - 13 \<le> j \<and> j \<le> i \<longrightarrow> tr ! j \<noteq> None))
        \<and> (atr ! i \<noteq> None \<longrightarrow> atr ! i = Some ((\<Sum>j = i - 13..i. the (tr ! j)) / 14))"
    if i: "i < n" for i
  proof -
    from i ltr have il: "i < length tr" by simp
    have d: "(atr ! i \<noteq> None)
           = (14 \<le> i + 1 \<and> (\<forall>j. i + 1 - 14 \<le> j \<and> j \<le> i \<longrightarrow> tr ! j \<noteq> None))"
      unfolding atr_def using il by (rule rolling_defined) simp
    have e: "(14 \<le> i + 1) = (13 \<le> i)" "i + 1 - 14 = i - 13" by auto
    have v: "atr ! i = Some ((\<Sum>j = i - 13..i. the (tr ! j)) / 14)" if "atr ! i \<noteq> None"
      using rolling_value [OF il, of 14 "\<lambda>x. sum_list x / 14"] that
      unfolding atr_def mean_upt by simp
    from d v show ?thesis unfolding e by blast
  qed
  with df' ltr latr show ?thesis unfolding n_def by blast
qed

lemma two_days_cols:
  "wf_frame frame_two_days"
  "map_of (columns frame_two_days) ''high'' = Some [Some 7050, Some 7062.08]"
  "map_of (columns frame_two_days) ''low'' = Some [Some 7000, Some 6998.93]"
  "map_of (columns frame_two_days) ''close'' = Some [Some 7010, Some 7059.40]"
  "length (index frame_two_days) = 2"
  by (simp_all add: frame_two_days_def wf_frame_def)

text \<open>
  On the two days of the example: TH-YC is missing at row 0 and \<open>|7062.08 - 7000|\<close> at
  row 1.
\<close>

theorem th_yc_uses_previous_low_witness:
  "wf_frame frame_two_days
   \<and> map_of (columns frame_two_days) ''high'' = Some [Some 7050, Some 7062.08]
   \<and> map_of (columns frame_two_days) ''low'' = Some [Some 7000, Some 6998.93]
   \<and> map_of (columns frame_two_days) ''close'' = Some [Some 7010, Some 7059.40]
   \<and> (\<exists>df' thyc. add_atr_columns frame_two_days = Inr df'
         \<and> map_of (columns df') ''TH-YC'' = Some thyc
         \<and> length thyc = 2 \<and> thyc ! 0 = None \<and> thyc ! 1 = Some 62.08)"
proof -
  from th_yc_uses_previous_low [OF two_days_cols(1-4)]
  obtain df' thyc where r: "add_atr_columns frame_two_days = Inr df'"
    "map_of (columns df') ''TH-YC'' = Some thyc"
    "length thyc = length (index frame_two_days)"
    "0 < length (index frame_two_days) \<longrightarrow> thyc ! 0 = None"
    "\<forall>i. 1 \<le> i \<and> i < length (index frame_two_days) \<longrightarrow>
        thyc ! i = (case [Some 7050, Some 7062.08] ! i of None \<Rightarrow> None
                    | Some a \<Rightarrow> (case [Some 7000, Some 6998.93] ! (i - 1) of None \<Rightarrow> None
                                 | Some b \<Rightarrow> Some \<bar>a - b\<bar>))"
    by blast
  from r(3,4) have "length thyc = 2" "thyc ! 0 = None"
    by (simp_all add: two_days_cols(5))
  moreover from r(5) [rule_format, of 1] have "thyc ! 1 = Some 62.08"
    by (simp add: two_days_cols(5))
  ultimately show ?thesis using r(1,2) two_days_cols(1-4) by blast
qed

text \<open>The frame the derived-column lines return for the two days of the example.\<close>

lemma two_days_result:
  "add_atr_columns frame_two_days =
     Inr \<lparr>index = [''2018-10-15'', ''2018-10-16''],
          columns = [(''open'', [Some 7020, Some 7029.22]),
                     (''close'', [Some 7010, Some 7059.40]),
                     (''high'', [Some 7050, Some 7062.08]),
                     (''low'', [Some 7000, Some 6998.93]),
                     (''volume'', [Some 0, Some 0]),
                     (''TH-TL'', [Some 50, Some 63.15]),
                     (''TH-YC'', [None, Some 62.08]),
                     (''TL-YC'', [None, Some 11.07]),
                     (''True Range'', [Some 50, Some 63.15]),
                     (''ATR (sma)'', [None, None])]\<rparr>"
  by (simp add: frame_two_days_def frame_eval del: not_None_eq)

text \<open>
  Claim C1 says that True Range is missing at row 0. It is not: on the two days of the
  example, TL-YC is missing at row 0 and the row maximum skips it, so True Range at
  row 0 is TH-TL at row 0, \<open>7050 - 7000 = 50\<close>.
\<close>

theorem true_range_first_row_counterexample:
  "add_atr_columns frame_two_days =
     Inr \<lparr>index = [''2018-10-15'', ''2018-10-16''],
          columns = [(''open'', [Some 7020, Some 7029.22]),
                     (''close'', [Some 7010, Some 7059.40]),
                     (''high'', [Some 7050, Some 7062.08]),
                     (''low'', [Some 7000, Some 6998.93]),
                     (''volume'', [Some 0, Some 0]),
                     (''TH-TL'', [Some 50, Some 63.15]),
                     (''TH-YC'', [None, Some 62.08]),
                     (''TL-YC'', [None, Some 11.07]),
                     (''True Range'', [Some 50, Some 63.15]),
                     (''ATR (sma)'', [None, None])]\<rparr>"
  by (rule two_days_result)

text \<open>On the two days of the example: True Range is 50 at row 0 and 63.15 at row 1.\<close>

theorem true_range_max_of_present_witness:
  "wf_frame frame_two_days
   \<and> map_of (columns frame_two_days) ''high'' = Some [Some 7050, Some 7062.08]
   \<and> map_of (columns frame_two_days) ''low'' = Some [Some 7000, Some 6998.93]
   \<and> map_of (columns frame_two_days) ''close'' = Some [Some 7010, Some 7059.40]
   \<and> (\<exists>df' thtl tlyc tr. add_atr_columns frame_two_days = Inr df'
         \<and> map_of (columns df') ''TH-TL'' = Some thtl
         \<and> map_of (columns df') ''TL-YC'' = Some tlyc
         \<and> map_of (columns df') ''True Range'' = Some tr
         \<and> length tr = 2 \<and> tlyc ! 0 = None \<and> thtl ! 0 = Some 50 \<and> tr ! 0 = Some 50
         \<and> tr ! 1 = Some 63.15)"
proof -
  from true_range_max_of_present [OF two_days_cols(1-4)]
  obtain df' thtl tlyc tr where r: "add_atr_columns frame_two_days = Inr df'"
    "map_of (columns df') ''TH-TL'' = Some thtl"
    "map_of (columns df') ''TL-YC'' = Some tlyc"
    "map_of (columns df') ''True Range'' = Some tr"
    "length tr = length (index frame_two_days)"
    "0 < length (index frame_two_days) \<longrightarrow>
       tlyc ! 0 = None \<and> tr ! 0 = thtl ! 0
       \<and> thtl ! 0 = (case [Some 7050, Some 7062.08] ! 0 of None \<Rightarrow> None
                     | Some a \<Rightarrow> (case [Some 7000, Some 6998.93] ! 0 of None \<Rightarrow> None
                                  | Some b \<Rightarrow> Some (a - b)))"
    "\<forall>i a b p. 1 \<le> i \<and> i < length (index frame_two_days)
         \<and> [Some 7050, Some 7062.08] ! i = Some a \<and> [Some 7000, Some 6998.93] ! i = Some b
         \<and> [Some 7010, Some 7059.40] ! (i - 1) = Some p \<longrightarrow>
       tr ! i = Some (max (a - b) \<bar>b - p\<bar>)"
    by blast
  from r(5,6) have "length tr = 2" "tlyc ! 0 = None" "thtl ! 0 = Some 50" "tr ! 0 = Some 50"
    by (simp_all add: two_days_cols(5))
  moreover from r(7) [rule_format, of 1 "7062.08" "6998.93" 7010] have "tr ! 1 = Some 63.15"
    by (simp add: two_days_cols(5))
  ultimately show ?thesis using r(1-4) two_days_cols(1-4) by blast
qed

text \<open>On the two days of the example, where each high is above its low.\<close>

theorem true_range_nonnegative_witness:
  "wf_frame frame_two_days
   \<and> map_of (columns frame_two_days) ''high'' = Some [Some 7050, Some 7062.08]
   \<and> map_of (columns frame_two_days) ''low'' = Some [Some 7000, Some 6998.93]
   \<and> map_of (columns frame_two_days) ''close'' = Some [Some 7010, Some 7059.40]
   \<and> (6998.93 :: real) \<le> 7062.08 \<and> (7000 :: real) \<le> 7050
   \<and> (\<exists>df' tr. add_atr_columns frame_two_days = Inr df'
         \<and> map_of (columns df') ''True Range'' = Some tr
         \<and> tr = [Some 50, Some 63.15] \<and> (0 :: real) \<le> 50 \<and> (0 :: real) \<le> 63.15)"
proof -
  have hl: "\<forall>i a b. i < length (index frame_two_days)
      \<and> [Some 7050, Some 7062.08] ! i = Some a \<and> [Some 7000, Some 6998.93] ! i = Some b
      \<longrightarrow> b \<le> (a :: real)"
    by (auto simp: two_days_cols(5) less_Suc_eq numeral_2_eq_2)
  from true_range_nonnegative [OF two_days_cols(1-4) hl]
  obtain df' tr where r: "add_atr_columns frame_two_days = Inr df'"
    "map_of (columns df') ''True Range'' = Some tr"
    by blast
  from r have "tr = [Some 50, Some 63.15]"
    unfolding two_days_result by auto
  with r two_days_cols(1-4) show ?thesis by simp
qed

text \<open>The columns of the fifteen days, and the frame the derived-column lines return.\<close>

lemma fifteen_days_cols:
  "map_of (columns frame_fifteen_days) ''high''
     = Some [Some 101, Some 102, Some 103, Some 104, Some 105, Some 106, Some 107, Some 108,
             Some 109, Some 110, Some 111, Some 112, Some 113, Some 114, Some 115]"
  "map_of (columns frame_fifteen_days) ''low'' = Some (replicate 15 (Some 100))"
  "map_of (columns frame_fifteen_days) ''close'' = Some (replicate 15 (Some 100))"
  "length (index frame_fifteen_days) = 15"
  by (simp_all add: frame_fifteen_days_def)

lemma fifteen_days_result:
  "add_atr_columns frame_fifteen_days =
     Inr (frame_fifteen_days\<lparr>columns := columns frame_fifteen_days @
       [(''TH-TL'', [Some 1, Some 2, Some 3, Some 4, Some 5, Some 6, Some 7, Some 8,
                    Some 9, Some 10, Some 11, Some 12, Some 13, Some 14, Some 15]),
        (''TH-YC'', [None, Some 2, Some 3, Some 4, Some 5, Some 6, Some 7, Some 8,
                    Some 9, Some 10, Some 11, Some 12, Some 13, Some 14, Some 15]),
        (''TL-YC'', [None, Some 0, Some 0, Some 0, Some 0, Some 0, Some 0, Some 0,
                    Some 0, Some 0, Some 0, Some 0, Some 0, Some 0, Some 0]),
        (''True Range'', [Some 1, Some 2, Some 3, Some 4, Some 5, Some 6, Some 7, Some 8,
                         Some 9, Some 10, Some 11, Some 12, Some 13, Some 14, Some 15]),
        (''ATR (sma)'', [None, None, None, None, None, None, None, None, None, None,
                        None, None, None, Some 7.5, Some 8.5])]\<rparr>)"
  by code_simp

text \<open>
  On fifteen days whose True Range is 1, 2, ..., 15: ATR is missing up to row 12, and
  is \<open>105 / 14 = 7.5\<close> at row 13 and \<open>119 / 14 = 8.5\<close> at row 14.
\<close>

theorem atr_is_mean_of_full_window_witness:
  "map_of (columns frame_fifteen_days) ''high''
     = Some [Some 101, Some 102, Some 103, Some 104, Some 105, Some 106, Some 107, Some 108,
             Some 109, Some 110, Some 111, Some 112, Some 113, Some 114, Some 115]
   \<and> map_of (columns frame_fifteen_days) ''low'' = Some (replicate 15 (Some 100))
   \<and> map_of (columns frame_fifteen_days) ''close'' = Some (replicate 15 (Some 100))
   \<and> (\<exists>df' tr atr. add_atr_columns frame_fifteen_days = Inr df'
         \<and> map_of (columns df') ''True Range'' = Some tr
         \<and> map_of (columns df') ''ATR (sma)'' = Some atr
         \<and> tr = [Some 1, Some 2, Some 3, Some 4, Some 5, Some 6, Some 7, Some 8,
                  Some 9, Some 10, Some 11, Some 12, Some 13, Some 14, Some 15]
         \<and> atr = [None, None, None, None, None, None, None, None, None, None,
                   None, None, None, Some 7.5, Some 8.5]
         \<and> atr ! 12 = None \<and> atr ! 13 \<noteq> None
         \<and> atr ! 13 = Some ((\<Sum>j = 0..13. the (tr ! j)) / 14))"
proof -
  from atr_is_mean_of_full_window [OF fifteen_days_cols(1-3)]
  obtain df' tr atr where r: "add_atr_columns frame_fifteen_days = Inr df'"
    "map_of (columns df') ''True Range'' = Some tr"
    "map_of (columns df') ''ATR (sma)'' = Some atr"
    "\<forall>i. i < length (index frame_fifteen_days) \<longrightarrow>
        (atr ! i \<noteq> None) = (13 \<le> i \<and> (\<forall>j. i - 13 \<le> j \<and> j \<le> i \<longrightarrow> tr ! j \<noteq> None))
        \<and> (atr ! i \<noteq> None \<longrightarrow> atr ! i = Some ((\<Sum>j = i - 13..i. the (tr ! j)) / 14))"
    by blast
  from r(1-3) have v: "tr = [Some 1, Some 2, Some 3, Some 4, Some 5, Some 6, Some 7, Some 8,
                  Some 9, Some 10, Some 11, Some 12, Some 13, Some 14, Some 15]"
    "atr = [None, None, None, None, None, None, None, None, None, None,
                   None, None, None, Some 7.5, Some 8.5]"
    unfolding fifteen_days_result by (auto simp: frame_fifteen_days_def)
  from r(4) [rule_format, of 12] have a12: "atr ! 12 = None"
    by (simp add: fifteen_days_cols(4))
  from v(2) have a13: "atr ! 13 \<noteq> None" by simp
  with r(4) [rule_format, of 13] have m13: "atr ! 13 = Some ((\<Sum>j = 0..13. the (tr ! j)) / 14)"
    by (simp add: fifteen_days_cols(4))
  from r(1-3) v a12 a13 m13 fifteen_days_cols(1-3) show ?thesis by blast
qed

section \<open>Fetching and loading\<close>

lemma sub_days_error: "sub_days d n = Inl e \<Longrightarrow> e = OverflowError"
  by (auto simp: sub_days_def Let_def split: if_splits prod.splits)

lemma query_params_error:
  assumes "get_wtd_query_params env today symb sd ed pd srt = Inl e"
  shows "e = OverflowError"
  using assms sub_days_error
  by (auto simp: get_wtd_query_params_def Let_def split: option.splits sum.splits)

lemma json_getitem_error:
  assumes "json_getitem data k = Inl e"
  shows "e = KeyError k \<or> e = TypeError"
  using assms by (auto simp: json_getitem_def split: json.splits option.splits)

lemma json_getitem_missing:
  "map_of kvs k = None \<Longrightarrow> json_getitem (JDict kvs) k = Inl (KeyError k)"
  by (simp add: json_getitem_def)

lemma json_getitem_not_dict:
  "\<forall>kvs. data \<noteq> JDict kvs \<Longrightarrow> json_getitem data k = Inl TypeError"
  by (cases data) (simp_all add: json_getitem_def)

text \<open>The function from the parsed response on.\<close>

lemma get_atr_dataframe_parsed:
  assumes "get_wtd_query_params (os_environ w) (clock w) symb sd ed pd srt = Inr qp"
    "requests_get w WTD_HISTORY_URL qp = Some text" "json_loads w text = Some data"
  shows "get_atr_dataframe w symb sd ed pd srt =
           (case json_getitem data ''history'' of Inl e \<Rightarrow> Inl e | Inr h \<Rightarrow> Inl ValueError)"
  using assms
  by (simp add: get_atr_dataframe_def DataFrame_of_str_def Let_def split: sum.splits)

lemma get_atr_dataframe_errors:
  "get_atr_dataframe w symb sd ed pd srt = Inl OverflowError
   \<or> get_atr_dataframe w symb sd ed pd srt = Inl RequestException
   \<or> get_atr_dataframe w symb sd ed pd srt = Inl JSONDecodeError
   \<or> get_atr_dataframe w symb sd ed pd srt = Inl (KeyError ''history'')
   \<or> get_atr_dataframe w symb sd ed pd srt = Inl TypeError
   \<or> get_atr_dataframe w symb sd ed pd srt = Inl ValueError"
proof (cases "get_wtd_query_params (os_environ w) (clock w) symb sd ed pd srt")
  case (Inl e)
  then have "e = OverflowError" by (rule query_params_error)
  with Inl show ?thesis by (simp add: get_atr_dataframe_def)
next
  case qp: (Inr qp)
  show ?thesis
  proof (cases "requests_get w WTD_HISTORY_URL qp")
    case None
    with qp show ?thesis by (simp add: get_atr_dataframe_def)
  next
    case body: (Some body)
    show ?thesis
    proof (cases "json_loads w body")
      case None
      with qp body show ?thesis by (simp add: get_atr_dataframe_def)
    next
      case (Some data)
      note p = get_atr_dataframe_parsed [OF qp body Some]
      show ?thesis
      proof (cases "json_getitem data ''history''")
        case (Inl e)
        with json_getitem_error [OF Inl] p show ?thesis by auto
      next
        case (Inr h)
        with p show ?thesis by simp
      qed
    qed
  qed
qed

text \<open>
  Claim C5, as the code has it. No call of \<^verbatim>\<open>get_atr_dataframe\<close> fails with
  MalformedResponseError. When the parsed response is an object without a
  \<^verbatim>\<open>history\<close> key, the call fails with \<^verbatim>\<open>KeyError('history')\<close>; when the parsed
  response is not an object, it fails with TypeError.
\<close>

theorem load_failures_are_python_errors:
  "get_atr_dataframe w symb sd ed pd srt \<noteq> Inl MalformedResponseError
   \<and> (\<forall>qp text kvs.
         get_wtd_query_params (os_environ w) (clock w) symb sd ed pd srt = Inr qp
         \<and> requests_get w WTD_HISTORY_URL qp = Some text
         \<and> json_loads w text = Some (JDict kvs) \<and> map_of kvs ''history'' = None
         \<longrightarrow> get_atr_dataframe w symb sd ed pd srt = Inl (KeyError ''history''))
   \<and> (\<forall>qp text data.
         get_wtd_query_params (os_environ w) (clock w) symb sd ed pd srt = Inr qp
         \<and> requests_get w WTD_HISTORY_URL qp = Some text
         \<and> json_loads w text = Some data \<and> (\<forall>kvs. data \<noteq> JDict kvs)
         \<longrightarrow> get_atr_dataframe w symb sd ed pd srt = Inl TypeError)"
proof (intro conjI allI impI)
  show "get_atr_dataframe w symb sd ed pd srt \<noteq> Inl MalformedResponseError"
    using get_atr_dataframe_errors [of w symb sd ed pd srt] by auto
next
  fix qp body kvs
  assume "get_wtd_query_params (os_environ w) (clock w) symb sd ed pd srt = Inr qp
         \<and> requests_get w WTD_HISTORY_URL qp = Some body
         \<and> json_loads w body = Some (JDict kvs) \<and> map_of kvs ''history'' = None"
  then show "get_atr_dataframe w symb sd ed pd srt = Inl (KeyError ''history'')"
    using get_atr_dataframe_parsed [of w symb sd ed pd srt qp body "JDict kvs"]
    by (simp add: json_getitem_missing)
next
  fix qp body data
  assume "get_wtd_query_params (os_environ w) (clock w) symb sd ed pd srt = Inr qp
         \<and> requests_get w WTD_HISTORY_URL qp = Some body
         \<and> json_loads w body = Some data \<and> (\<forall>kvs. data \<noteq> JDict kvs)"
  then show "get_atr_dataframe w symb sd ed pd srt = Inl TypeError"
    using get_atr_dataframe_parsed [of w symb sd ed pd srt qp body data]
    by (simp add: json_getitem_not_dict)
qed

text \<open>The query of the example calls: the default arguments, at the clock's 2018-10-20.\<close>

lemma example_query:
  "get_wtd_query_params (os_environ (world_of text data)) (clock (world_of text data))
       ''UKX'' None None 300 ''oldest''
     = Inr [(''symbol'', Str ''UKX''), (''sort'', Str ''oldest''),
            (''date_from'', Str ''2017-12-24''), (''date_to'', Str ''2018-10-20''),
            (''api_token'', NoneVal)]"
  by (simp add: world_of_def params_eval date_eval)

lemma example_world:
  "requests_get (world_of text data) url qp = Some text"
  "json_loads (world_of text data) text = Some data"
  by (simp_all add: world_of_def)

lemma example_call:
  "get_atr_dataframe (world_of text data) ''UKX'' None None 300 ''oldest'' =
     (case json_getitem data ''history'' of Inl e \<Rightarrow> Inl e | Inr h \<Rightarrow> Inl ValueError)"
  by (rule get_atr_dataframe_parsed [OF example_query example_world])

text \<open>
  Claim C5 says that a response without a \<^verbatim>\<open>history\<close> key fails with
  MalformedResponseError. The response \<^verbatim>\<open>{"name": "UKX"}\<close> fails with KeyError.
\<close>

theorem missing_history_counterexample:
  "get_atr_dataframe (world_of text_no_history response_no_history)
       ''UKX'' None None 300 ''oldest''
     = Inl (KeyError ''history'')"
  unfolding example_call by (simp add: response_no_history_def json_getitem_def)

text \<open>
  The two failures at concrete responses: \<^verbatim>\<open>{"name": "UKX"}\<close>, an object without
  \<^verbatim>\<open>history\<close>, and \<^verbatim>\<open>[]\<close>, which is not an object.
\<close>

theorem load_failures_are_python_errors_witness:
  "get_wtd_query_params (os_environ (world_of text_no_history response_no_history))
       (clock (world_of text_no_history response_no_history)) ''UKX'' None None 300 ''oldest''
     = Inr [(''symbol'', Str ''UKX''), (''sort'', Str ''oldest''),
            (''date_from'', Str ''2017-12-24''), (''date_to'', Str ''2018-10-20''),
            (''api_token'', NoneVal)]
   \<and> requests_get (world_of text_no_history response_no_history) WTD_HISTORY_URL
         [(''symbol'', Str ''UKX''), (''sort'', Str ''oldest''),
          (''date_from'', Str ''2017-12-24''), (''date_to'', Str ''2018-10-20''),
          (''api_token'', NoneVal)]
       = Some text_no_history
   \<and> json_loads (world_of text_no_history response_no_history) text_no_history
       = Some (JDict [(''name'', JStr ''UKX'')])
   \<and> map_of [(''name'', JStr ''UKX'')] ''history'' = None
   \<and> get_atr_dataframe (world_of text_no_history response_no_history)
         ''UKX'' None None 300 ''oldest'' = Inl (KeyError ''history'')
   \<and> get_atr_dataframe (world_of text_no_history response_no_history)
         ''UKX'' None None 300 ''oldest'' \<noteq> Inl MalformedResponseError
   \<and> json_loads (world_of ''[]'' (JList [])) ''[]'' = Some (JList [])
   \<and> get_atr_dataframe (world_of ''[]'' (JList [])) ''UKX'' None None 300 ''oldest''
       = Inl TypeError"
proof -
  let ?w = "world_of text_no_history response_no_history"
  let ?v = "world_of ''[]'' (JList [])"
  let ?qp = "[(''symbol'', Str ''UKX''), (''sort'', Str ''oldest''),
            (''date_from'', Str ''2017-12-24''), (''date_to'', Str ''2018-10-20''),
            (''api_token'', NoneVal)]"
  have h: "get_wtd_query_params (os_environ ?w) (clock ?w) ''UKX'' None None 300 ''oldest''
             = Inr ?qp"
    "requests_get ?w WTD_HISTORY_URL ?qp = Some text_no_history"
    "json_loads ?w text_no_history = Some (JDict [(''name'', JStr ''UKX'')])"
    "map_of [(''name'', JStr ''UKX'')] ''history'' = None"
    using example_query [of text_no_history response_no_history]
      example_world [of text_no_history response_no_history]
    by (simp_all add: response_no_history_def)
  have g: "get_wtd_query_params (os_environ ?v) (clock ?v) ''UKX'' None None 300 ''oldest''
             = Inr ?qp"
    "requests_get ?v WTD_HISTORY_URL ?qp = Some ''[]''"
    "json_loads ?v ''[]'' = Some (JList [])" "\<forall>kvs. JList [] \<noteq> JDict kvs"
    using example_query [of "''[]''" "JList []"] example_world [of "''[]''" "JList []"]
    by simp_all
  note T = load_failures_are_python_errors [of ?w "''UKX''" None None 300 "''oldest''"]
  note U = load_failures_are_python_errors [of ?v "''UKX''" None None 300 "''oldest''"]
  from T h have 1: "get_atr_dataframe ?w ''UKX'' None None 300 ''oldest''
                      = Inl (KeyError ''history'')"
    by blast
  from T have 2: "get_atr_dataframe ?w ''UKX'' None None 300 ''oldest''
                    \<noteq> Inl MalformedResponseError"
    by blast
  from U g have 3: "get_atr_dataframe ?v ''UKX'' None None 300 ''oldest'' = Inl TypeError"
    by blast
  from h 1 2 g(3) 3 show ?thesis by blast
qed

text \<open>
  Claim C6 says that the response \<^verbatim>\<open>{"name": "UKX", "history": {}}\<close> is loaded as an
  empty series and gives an empty result with no error. On that response the call
  fails: line 93 turns the empty history into a str and line 96 hands that str to
  \<^verbatim>\<open>DataFrame\<close>, which raises ValueError.
\<close>

theorem empty_history_raises:
  "get_atr_dataframe (world_of text_empty_history response_empty_history)
       ''UKX'' None None 300 ''oldest''
     = Inl ValueError"
  unfolding example_call by (simp add: response_empty_history_def json_getitem_def)

text \<open>
  Claim C3 says that the rows loaded from every response come out in ascending date
  order. On the example response of the source's comment no rows are loaded at all:
  the call fails at line 96 with the same ValueError.
\<close>

theorem one_day_history_raises:
  "get_atr_dataframe (world_of text_one_day response_one_day) ''UKX'' None None 300 ''oldest''
     = Inl ValueError"
  unfolding example_call by (simp add: response_one_day_def json_getitem_def)

end
